theory Spec2Isabelle
  imports Complex_Main "HOL-Library.Monad_Syntax" "HOL-Library.Char_ord"
    "HOL-Library.List_Lexorder" "HOL-Library.Multiset"
begin

section \<open>JavaScript strings\<close>

text \<open>
  A JavaScript string is a sequence of UTF-16 code units. The model covers the strings whose
  code units are below 256 (Latin-1): one \<^typ>\<open>char\<close> per code unit, \<open>codeUnit\<close> its
  number. On this range \<open>toLowerCase\<close> maps character by character and keeps the length:
  \<open>A\<close>..\<open>Z\<close> and the accented capitals U+00C0..U+00DE (the multiplication sign U+00D7
  apart) move up by 32, everything else stays.
\<close>

definition codeUnit :: "char \<Rightarrow> nat" where
  "codeUnit c = of_char c"

definition toLowerChar :: "char \<Rightarrow> char" where
  "toLowerChar c =
     (let n = codeUnit c
      in if (65 \<le> n \<and> n \<le> 90) \<or> (192 \<le> n \<and> n \<le> 222 \<and> n \<noteq> 215)
         then char_of (n + 32) else c)"

definition toLowerCase :: "string \<Rightarrow> string" where
  "toLowerCase s = map toLowerChar s"

text \<open>The regular-expression classes \<open>\w\<close> (\<open>[A-Za-z0-9_]\<close>) and \<open>\s\<close> (white space and
  line terminators; below 256 these are TAB, LF, VT, FF, CR, SP and NBSP).\<close>

definition isWordChar :: "char \<Rightarrow> bool" where
  "isWordChar c =
     (let n = codeUnit c
      in (48 \<le> n \<and> n \<le> 57) \<or> (65 \<le> n \<and> n \<le> 90) \<or> n = 95 \<or> (97 \<le> n \<and> n \<le> 122))"

definition isWhiteSpace :: "char \<Rightarrow> bool" where
  "isWhiteSpace c =
     (let n = codeUnit c in (9 \<le> n \<and> n \<le> 13) \<or> n = 32 \<or> n = 160)"

text \<open>\<open>s.replace(/[^\w\s]/g, ' ')\<close>\<close>

definition replaceNonWord :: "string \<Rightarrow> string" where
  "replaceNonWord s = map (\<lambda>c. if isWordChar c \<or> isWhiteSpace c then c else CHR '' '') s"

text \<open>
  \<open>s.split(/\s+/)\<close>: the fields between the maximal runs of white space. A run at the start or
  at the end of the string leaves an empty field there, and the empty string splits into one
  empty field. \<open>inRun\<close> says that the scan is inside a run, \<open>cur\<close> is the field read so far.
\<close>

fun splitLoop :: "bool \<Rightarrow> string \<Rightarrow> string \<Rightarrow> string list" where
  "splitLoop inRun cur [] = [cur]"
| "splitLoop inRun cur (c # cs) =
     (if isWhiteSpace c
      then (if inRun then splitLoop True cur cs else cur # splitLoop True [] cs)
      else splitLoop False (cur @ [c]) cs)"

definition splitWhiteSpace :: "string \<Rightarrow> string list" where
  "splitWhiteSpace s = splitLoop False [] s"

definition preprocessQuery :: "string \<Rightarrow> string list" where
  "preprocessQuery query =
     filter (\<lambda>term. 2 < length term) (splitWhiteSpace (replaceNonWord (toLowerCase query)))"

text \<open>The characters \<open>[a-z0-9_]\<close>, and the maximal runs of characters that are not white
  space (the terms of a text, none of them empty).\<close>

definition isLowerWordChar :: "char \<Rightarrow> bool" where
  "isLowerWordChar c =
     (let n = codeUnit c in (48 \<le> n \<and> n \<le> 57) \<or> n = 95 \<or> (97 \<le> n \<and> n \<le> 122))"

definition isLowerAlnum :: "char \<Rightarrow> bool" where
  "isLowerAlnum c = (let n = codeUnit c in (48 \<le> n \<and> n \<le> 57) \<or> (97 \<le> n \<and> n \<le> 122))"

fun whiteSpaceRuns :: "string \<Rightarrow> string \<Rightarrow> string list" where
  "whiteSpaceRuns cur [] = (if cur = [] then [] else [cur])"
| "whiteSpaceRuns cur (c # cs) =
     (if isWhiteSpace c
      then (if cur = [] then whiteSpaceRuns [] cs else cur # whiteSpaceRuns [] cs)
      else whiteSpaceRuns (cur @ [c]) cs)"

section \<open>String search\<close>

text \<open>
  \<open>s.indexOf(p, position)\<close>: the least index from \<open>position\<close> (clamped to the length of
  \<open>s\<close>) at which \<open>p\<close> starts in \<open>s\<close>; \<open>None\<close> stands for the result \<open>-1\<close>. The empty string
  is found at the clamped position. \<open>includes'\<close> is \<open>s.includes(p)\<close>, that is \<open>s.indexOf(p) !== -1\<close>.
\<close>

fun startsWith :: "string \<Rightarrow> string \<Rightarrow> bool" where
  "startsWith s [] = True"
| "startsWith [] (p # ps) = False"
| "startsWith (c # cs) (p # ps) = (c = p \<and> startsWith cs ps)"

fun indexOfLoop :: "string \<Rightarrow> string \<Rightarrow> nat \<Rightarrow> nat option" where
  "indexOfLoop [] p k = (if p = [] then Some k else None)"
| "indexOfLoop (c # cs) p k =
     (if startsWith (c # cs) p then Some k else indexOfLoop cs p (Suc k))"

definition indexOf :: "string \<Rightarrow> string \<Rightarrow> nat \<Rightarrow> nat option" where
  "indexOf s p position =
     (let start = min position (length s) in indexOfLoop (drop start s) p start)"

definition includes' :: "string \<Rightarrow> string \<Rightarrow> bool" where
  "includes' s p = (indexOf s p 0 \<noteq> None)"

text \<open>\<open>s.substring(start, end)\<close> on natural numbers: both ends are clamped to the length and
  swapped when they come in the wrong order.\<close>

definition substring :: "string \<Rightarrow> nat \<Rightarrow> nat \<Rightarrow> string" where
  "substring s startPos endPos =
     (let a = min startPos (length s); b = min endPos (length s)
      in take (max a b - min a b) (drop (min a b) s))"

text \<open>The decimal numeral of a natural number, as a template literal prints it.\<close>

fun natToString :: "nat \<Rightarrow> string" where
  "natToString n =
     (if n < 10 then [char_of (48 + n)]
      else natToString (n div 10) @ [char_of (48 + n mod 10)])"

declare natToString.simps [simp del]

text \<open>
  \<open>(s.match(new RegExp(p, 'g')) || []).length\<close>. A pattern \<open>p\<close> without syntax characters
  (\<open>^ $ \ . * + ? ( ) [ ] { } |\<close>) matches itself and nothing else: the matches are found
  from left to right, each search starting where the last match ended, and the empty pattern
  matches once at every position, the end included (\<open>skip\<close> counts the characters of the
  last match still to pass). For a pattern with a syntax character the count is the one of
  the regular-expression engine of the platform, which is not part of the repository: the
  engine is a parameter \<open>regExp\<close> of the model, from the pattern and the string to the number
  of matches, or to \<open>None\<close> when the pattern is no regular expression and \<open>new RegExp\<close>
  throws a SyntaxError.
\<close>

type_synonym regExpEngine = "string \<Rightarrow> string \<Rightarrow> nat option"

definition isSyntaxCharacter :: "char \<Rightarrow> bool" where
  "isSyntaxCharacter c =
     (codeUnit c \<in> {36, 40, 41, 42, 43, 46, 63, 91, 92, 93, 94, 123, 124, 125})"

definition regExpLiteral :: "string \<Rightarrow> bool" where
  "regExpLiteral p = list_all (\<lambda>c. \<not> isSyntaxCharacter c) p"

fun matchCountLoop :: "nat \<Rightarrow> string \<Rightarrow> string \<Rightarrow> nat" where
  "matchCountLoop skip [] p = (if p = [] then 1 else 0)"
| "matchCountLoop skip (c # cs) p =
     (if 0 < skip then matchCountLoop (skip - 1) cs p
      else if startsWith (c # cs) p then Suc (matchCountLoop (length p - 1) cs p)
      else matchCountLoop 0 cs p)"

definition regExpMatchCount :: "regExpEngine \<Rightarrow> string \<Rightarrow> string \<Rightarrow> nat option" where
  "regExpMatchCount regExp p s =
     (if regExpLiteral p then Some (matchCountLoop 0 s p) else regExp p s)"

section \<open>JavaScript numbers\<close>

text \<open>
  Numbers are modelled as reals, without rounding, together with \<open>NaN\<close>, which the one
  division of the search engine yields for \<open>0 / 0\<close>. No other operation of the engine leaves
  the reals. A comparison with \<open>NaN\<close> is false and arithmetic on \<open>NaN\<close> gives \<open>NaN\<close>.
\<close>

datatype number = Num real | NaN

fun num_ge :: "number \<Rightarrow> real \<Rightarrow> bool" where
  "num_ge (Num x) t = (t \<le> x)"
| "num_ge NaN t = False"

fun num_lt :: "number \<Rightarrow> real \<Rightarrow> bool" where
  "num_lt (Num x) t = (x < t)"
| "num_lt NaN t = False"

fun num_gt :: "number \<Rightarrow> real \<Rightarrow> bool" where
  "num_gt (Num x) t = (t < x)"
| "num_gt NaN t = False"

fun num_sub :: "number \<Rightarrow> number \<Rightarrow> number" where
  "num_sub (Num x) (Num y) = Num (x - y)"
| "num_sub a b = NaN"

text \<open>\<open>position / length\<close> for a position in a text of that length: the divisor is zero only
  for the position 0 of the empty text, and \<open>0 / 0\<close> is \<open>NaN\<close>.\<close>

definition num_divide :: "nat \<Rightarrow> nat \<Rightarrow> number" where
  "num_divide position len = (if len = 0 then NaN else Num (real position / real len))"

section \<open>Data model\<close>

text \<open>The interfaces of the type declarations, with the fields that the search engine reads.
  An optional field is an \<open>option\<close>; \<open>text'\<close>, \<open>id'\<close>, \<open>keywords'\<close> and \<open>context'\<close> are the
  fields \<open>text\<close>, \<open>id\<close>, \<open>keywords\<close> and \<open>context\<close>.\<close>

record ExtractedImage =
  ocrText :: "string option"

record ExtractedTable =
  headers :: "string list"
  rows :: "string list list"

record FileMetadata =
  title :: "string option"
  author :: "string option"

record ExtractedContent =
  text' :: string
  images :: "ExtractedImage list"
  tables :: "ExtractedTable list"
  metadata :: FileMetadata
  summary :: "string option"
  keywords' :: "string list option"

record ExtractedFile =
  id' :: string
  name :: string
  extractedContent :: ExtractedContent

datatype MatchType = Text | Ocr | Metadata

record SearchResult =
  fileId :: string
  fileName :: string
  content :: string
  relevanceScore :: number
  matchType :: MatchType
  context' :: string

datatype SortOption = Name | Date | Size | Type | Relevance

text \<open>An option that is absent takes its default in \<open>search\<close>. \<open>maxResults\<close> is an integer and
  \<open>threshold\<close> a real number; other numbers are outside the model.\<close>

record SearchOptions =
  includeText :: "bool option"
  includeOCR :: "bool option"
  includeMetadata :: "bool option"
  sortBy :: "SortOption option"
  maxResults :: "int option"
  threshold :: "real option"

section \<open>The search service\<close>

subsection \<open>Context window and relevance score\<close>

definition extractContext :: "string \<Rightarrow> nat \<Rightarrow> nat \<Rightarrow> string" where
  "extractContext text position matchLength =
     (let contextLength = (150 :: nat);
          startPos = nat (max 0 (int position - int (contextLength div 2)));
          endPos = min (length text) (position + matchLength + contextLength div 2);
          context = substring text startPos endPos;
          context = (if 0 < startPos then ''...'' @ context else context);
          context = (if endPos < length text then context @ ''...'' else context)
      in context)"

text \<open>
  The score is built up in the order of the source: base score, exact-match bonus, frequency
  bonus, position bonus, and the final \<open>Math.min(1, score)\<close>. The result is \<open>None\<close> where
  \<open>new RegExp\<close> throws.
\<close>

definition calculateRelevanceScore :: "regExpEngine \<Rightarrow> string \<Rightarrow> string \<Rightarrow> string \<Rightarrow> number option" where
  "calculateRelevanceScore regExp term fullText context =
     (let score = (0.5 :: real);
          score = (if includes' (toLowerCase context) (toLowerCase term)
                   then score + 0.3 else score)
      in case regExpMatchCount regExp (toLowerCase term) (toLowerCase fullText) of
           None \<Rightarrow> None
         | Some termCount \<Rightarrow>
             (let score = score + min 0.2 (real termCount * 0.05)
              in case indexOf (toLowerCase fullText) (toLowerCase term) 0 of
                   None \<Rightarrow> Some (Num (min 1 score))
                 | Some position \<Rightarrow>
                     (case num_divide position (length fullText) of
                        NaN \<Rightarrow> Some NaN
                      | Num relativePosition \<Rightarrow>
                          Some (Num (min 1 (score + (1 - relativePosition) * 0.1))))))"

text \<open>The two \<open>Set\<close>s of normalized terms, their intersection and union, and the guarded
  quotient of the sizes.\<close>

definition calculateSemanticSimilarity :: "string \<Rightarrow> string \<Rightarrow> real" where
  "calculateSemanticSimilarity query text =
     (let queryWords = set (preprocessQuery query);
          textWords = set (preprocessQuery text);
          intersection = Set.filter (\<lambda>word. word \<in> textWords) queryWords;
          union = queryWords \<union> textWords
      in if 0 < card union then real (card intersection) / real (card union) else 0)"

subsection \<open>Matching in a text\<close>

text \<open>\<open>deduplicateResults\<close>: a filter that keeps the first result of every key
  \<open>`${result.fileId}-${result.content}`\<close>; \<open>seen\<close> is the set of the keys met so far.\<close>

fun deduplicateLoop :: "string set \<Rightarrow> SearchResult list \<Rightarrow> SearchResult list" where
  "deduplicateLoop seen [] = []"
| "deduplicateLoop seen (result # results) =
     (let key = fileId result @ ''-'' @ content result
      in if key \<in> seen then deduplicateLoop seen results
         else result # deduplicateLoop (insert key seen) results)"

definition deduplicateResults :: "SearchResult list \<Rightarrow> SearchResult list" where
  "deduplicateResults results = deduplicateLoop {} results"

text \<open>
  The \<open>while\<close> loop of \<open>searchInText\<close> for one term: it looks for the term from \<open>index\<close> on,
  pushes a result for the occurrence found and goes on behind it. Nothing in the loop makes
  \<open>index\<close> grow when the term is empty, so the loop is a partial function: \<open>None\<close> is the loop
  that does not return (or the scorer that throws).
\<close>

partial_function (option) searchInText_while ::
  "regExpEngine \<Rightarrow> string \<Rightarrow> string \<Rightarrow> string \<Rightarrow> string \<Rightarrow> string \<Rightarrow> MatchType \<Rightarrow> nat \<Rightarrow> SearchResult list
     \<Rightarrow> SearchResult list option" where
  "searchInText_while regExp text textLower term fileId' fileName' matchType' index results =
     (let termLower = toLowerCase term
      in case indexOf textLower termLower index of
           None \<Rightarrow> Some results
         | Some index \<Rightarrow>
             (let context = extractContext text index (length termLower)
              in case calculateRelevanceScore regExp term text context of
                   None \<Rightarrow> None
                 | Some relevanceScore' \<Rightarrow>
                     searchInText_while regExp text textLower term fileId' fileName' matchType'
                       (index + length termLower)
                       (results @
                          [\<lparr>fileId = fileId', fileName = fileName', content = context,
                            relevanceScore = relevanceScore', matchType = matchType',
                            context' = context\<rparr>])))"

declare searchInText_while.simps [code]

text \<open>The loop over the query terms.\<close>

fun searchInText_terms ::
  "regExpEngine \<Rightarrow> string \<Rightarrow> string \<Rightarrow> string \<Rightarrow> string \<Rightarrow> MatchType \<Rightarrow> string list \<Rightarrow> SearchResult list
     \<Rightarrow> SearchResult list option" where
  "searchInText_terms regExp text textLower fileId' fileName' matchType' [] results = Some results"
| "searchInText_terms regExp text textLower fileId' fileName' matchType' (term # queryTerms) results =
     (case searchInText_while regExp text textLower term fileId' fileName' matchType' 0 results of
        None \<Rightarrow> None
      | Some results \<Rightarrow>
          searchInText_terms regExp text textLower fileId' fileName' matchType' queryTerms results)"

definition searchInText ::
  "regExpEngine \<Rightarrow> string \<Rightarrow> string \<Rightarrow> string \<Rightarrow> string \<Rightarrow> MatchType \<Rightarrow> SearchResult list option" where
  "searchInText regExp query text fileId' fileName' matchType' =
     (let queryTerms = preprocessQuery query;
          textLower = toLowerCase text
      in case searchInText_terms regExp text textLower fileId' fileName' matchType' queryTerms [] of
           None \<Rightarrow> None
         | Some results \<Rightarrow> Some (deduplicateResults results))"

subsection \<open>Matching in metadata, tables and keywords\<close>

text \<open>A string in a condition counts as true when it is there and not empty.\<close>

definition searchInMetadata :: "string \<Rightarrow> ExtractedFile \<Rightarrow> SearchResult list" where
  "searchInMetadata query file =
     (let metadata' = metadata (extractedContent file);
          queryLower = toLowerCase query
      in (case title metadata' of
            Some t \<Rightarrow>
              if t \<noteq> [] \<and> includes' (toLowerCase t) queryLower
              then [\<lparr>fileId = id' file, fileName = name file, content = t,
                     relevanceScore = Num 0.9, matchType = Metadata,
                     context' = ''Title: '' @ t\<rparr>]
              else []
          | None \<Rightarrow> [])
         @
         (case author metadata' of
            Some a \<Rightarrow>
              if a \<noteq> [] \<and> includes' (toLowerCase a) queryLower
              then [\<lparr>fileId = id' file, fileName = name file, content = a,
                     relevanceScore = Num 0.8, matchType = Metadata,
                     context' = ''Author: '' @ a\<rparr>]
              else []
          | None \<Rightarrow> []))"

fun searchInTable_headers :: "string \<Rightarrow> string \<Rightarrow> string \<Rightarrow> string list \<Rightarrow> SearchResult list" where
  "searchInTable_headers queryLower fileId' fileName' [] = []"
| "searchInTable_headers queryLower fileId' fileName' (header # rest) =
     (if includes' (toLowerCase header) queryLower
      then [\<lparr>fileId = fileId', fileName = fileName', content = header,
             relevanceScore = Num 0.7, matchType = Text,
             context' = ''Table header: '' @ header\<rparr>]
      else [])
     @ searchInTable_headers queryLower fileId' fileName' rest"

fun searchInTable_row ::
  "string \<Rightarrow> string \<Rightarrow> string \<Rightarrow> nat \<Rightarrow> nat \<Rightarrow> string list \<Rightarrow> SearchResult list" where
  "searchInTable_row queryLower fileId' fileName' rowIndex colIndex [] = []"
| "searchInTable_row queryLower fileId' fileName' rowIndex colIndex (cell # rest) =
     (if includes' (toLowerCase cell) queryLower
      then [\<lparr>fileId = fileId', fileName = fileName', content = cell,
             relevanceScore = Num 0.6, matchType = Text,
             context' = ''Table cell (Row '' @ natToString (rowIndex + 1) @ '', Col '' @
                        natToString (colIndex + 1) @ ''): '' @ cell\<rparr>]
      else [])
     @ searchInTable_row queryLower fileId' fileName' rowIndex (colIndex + 1) rest"

fun searchInTable_rows ::
  "string \<Rightarrow> string \<Rightarrow> string \<Rightarrow> nat \<Rightarrow> string list list \<Rightarrow> SearchResult list" where
  "searchInTable_rows queryLower fileId' fileName' rowIndex [] = []"
| "searchInTable_rows queryLower fileId' fileName' rowIndex (row # rest) =
     searchInTable_row queryLower fileId' fileName' rowIndex 0 row
     @ searchInTable_rows queryLower fileId' fileName' (rowIndex + 1) rest"

definition searchInTable ::
  "string \<Rightarrow> ExtractedTable \<Rightarrow> string \<Rightarrow> string \<Rightarrow> SearchResult list" where
  "searchInTable query table fileId' fileName' =
     (let queryLower = toLowerCase query
      in searchInTable_headers queryLower fileId' fileName' (headers table)
         @ searchInTable_rows queryLower fileId' fileName' 0 (rows table))"

fun searchInKeywords_loop :: "string \<Rightarrow> string \<Rightarrow> string \<Rightarrow> string list \<Rightarrow> SearchResult list" where
  "searchInKeywords_loop queryLower fileId' fileName' [] = []"
| "searchInKeywords_loop queryLower fileId' fileName' (keyword # rest) =
     (if includes' (toLowerCase keyword) queryLower
      then [\<lparr>fileId = fileId', fileName = fileName', content = keyword,
             relevanceScore = Num 0.8, matchType = Text,
             context' = ''Keyword: '' @ keyword\<rparr>]
      else [])
     @ searchInKeywords_loop queryLower fileId' fileName' rest"

definition searchInKeywords ::
  "string \<Rightarrow> string list \<Rightarrow> string \<Rightarrow> string \<Rightarrow> SearchResult list" where
  "searchInKeywords query keywords fileId' fileName' =
     searchInKeywords_loop (toLowerCase query) fileId' fileName' keywords"

subsection \<open>Sorting and truncation\<close>

text \<open>
  \<open>Array.prototype.sort\<close> with a comparator: the stable sort, by insertion. An element goes
  behind another one only when the comparator is positive on the pair; \<open>NaN\<close> from the
  comparator counts as 0. (For a comparator that is not a consistent order the language
  leaves the result to the implementation.)
\<close>

fun insertSorted :: "('a \<Rightarrow> 'a \<Rightarrow> number) \<Rightarrow> 'a \<Rightarrow> 'a list \<Rightarrow> 'a list" where
  "insertSorted compareFn x [] = [x]"
| "insertSorted compareFn x (y # ys) =
     (if num_gt (compareFn x y) 0 then y # insertSorted compareFn x ys else x # y # ys)"

definition arraySort :: "('a \<Rightarrow> 'a \<Rightarrow> number) \<Rightarrow> 'a list \<Rightarrow> 'a list" where
  "arraySort compareFn xs = foldr (insertSorted compareFn) xs []"

text \<open>
  \<open>localeCompare\<close> is the string comparison of the platform, a collation that depends on the
  locale and is not part of the repository: like the engine \<open>regExp\<close> it is a parameter, of
  \<open>sortResults\<close> and of \<open>search\<close>, with a negative, zero or positive result.
\<close>

definition sortResults ::
  "(string \<Rightarrow> string \<Rightarrow> int) \<Rightarrow> SearchResult list \<Rightarrow> SortOption \<Rightarrow> SearchResult list" where
  "sortResults localeCompare results sortBy' =
     (case sortBy' of
        Relevance \<Rightarrow>
          arraySort (\<lambda>a b. num_sub (relevanceScore b) (relevanceScore a)) results
      | Name \<Rightarrow>
          arraySort (\<lambda>a b. Num (real_of_int (localeCompare (fileName a) (fileName b)))) results
      | _ \<Rightarrow> results)"

text \<open>\<open>xs.slice(0, end)\<close> for an integer \<open>end\<close>: a negative end counts from the end of the
  array.\<close>

definition slice :: "'a list \<Rightarrow> int \<Rightarrow> 'a list" where
  "slice xs endIndex =
     (if endIndex < 0 then take (nat (int (length xs) + endIndex)) xs
      else take (nat endIndex) xs)"

subsection \<open>The search\<close>

text \<open>The loop over the images of a file, the body of the loop over the files, and that loop;
  \<open>results\<close> is the array that every matcher pushes its results to.\<close>

fun searchImages ::
  "regExpEngine \<Rightarrow> string \<Rightarrow> string \<Rightarrow> string \<Rightarrow> ExtractedImage list \<Rightarrow> SearchResult list
     \<Rightarrow> SearchResult list option" where
  "searchImages regExp query fileId' fileName' [] results = Some results"
| "searchImages regExp query fileId' fileName' (image' # rest) results =
     (case ocrText image' of
        None \<Rightarrow> searchImages regExp query fileId' fileName' rest results
      | Some t \<Rightarrow>
          if t \<noteq> []
          then (case searchInText regExp query t fileId' fileName' Ocr of
                  None \<Rightarrow> None
                | Some ocrResults \<Rightarrow>
                    searchImages regExp query fileId' fileName' rest (results @ ocrResults))
          else searchImages regExp query fileId' fileName' rest results)"

fun searchTables ::
  "string \<Rightarrow> string \<Rightarrow> string \<Rightarrow> ExtractedTable list \<Rightarrow> SearchResult list \<Rightarrow> SearchResult list" where
  "searchTables query fileId' fileName' [] results = results"
| "searchTables query fileId' fileName' (table # rest) results =
     searchTables query fileId' fileName' rest
       (results @ searchInTable query table fileId' fileName')"

definition searchFile ::
  "regExpEngine \<Rightarrow> string \<Rightarrow> bool \<Rightarrow> bool \<Rightarrow> bool \<Rightarrow> ExtractedFile \<Rightarrow> SearchResult list
     \<Rightarrow> SearchResult list option" where
  "searchFile regExp query includeText' includeOCR' includeMetadata' file results =
     (let c = extractedContent file
      in do {
        results \<leftarrow>
          (if includeText' \<and> text' c \<noteq> []
           then do {
             textResults \<leftarrow> searchInText regExp query (text' c) (id' file) (name file) Text;
             Some (results @ textResults) }
           else Some results);
        results \<leftarrow>
          (if includeOCR' then searchImages regExp query (id' file) (name file) (images c) results
           else Some results);
        results \<leftarrow>
          Some (if includeMetadata' then results @ searchInMetadata query file else results);
        results \<leftarrow> Some (searchTables query (id' file) (name file) (tables c) results);
        results \<leftarrow>
          (case summary c of
             None \<Rightarrow> Some results
           | Some s \<Rightarrow>
               if s \<noteq> []
               then do {
                 summaryResults \<leftarrow> searchInText regExp query s (id' file) (name file) Text;
                 Some (results @ summaryResults) }
               else Some results);
        Some (case keywords' c of
                None \<Rightarrow> results
              | Some ks \<Rightarrow> results @ searchInKeywords query ks (id' file) (name file))
      })"

fun searchFiles ::
  "regExpEngine \<Rightarrow> string \<Rightarrow> bool \<Rightarrow> bool \<Rightarrow> bool \<Rightarrow> ExtractedFile list \<Rightarrow> SearchResult list
     \<Rightarrow> SearchResult list option" where
  "searchFiles regExp query includeText' includeOCR' includeMetadata' [] results = Some results"
| "searchFiles regExp query includeText' includeOCR' includeMetadata' (file # files) results =
     (case searchFile regExp query includeText' includeOCR' includeMetadata' file results of
        None \<Rightarrow> None
      | Some results \<Rightarrow>
          searchFiles regExp query includeText' includeOCR' includeMetadata' files results)"

text \<open>The options with their defaults, the candidates before the threshold (the array
  \<open>results\<close> after the loop), and the search.\<close>

definition optionOr :: "'a option \<Rightarrow> 'a \<Rightarrow> 'a" where
  "optionOr v d = (case v of None \<Rightarrow> d | Some x \<Rightarrow> x)"

definition collectResults ::
  "regExpEngine \<Rightarrow> string \<Rightarrow> ExtractedFile list \<Rightarrow> SearchOptions \<Rightarrow> SearchResult list option" where
  "collectResults regExp query files options =
     searchFiles regExp query (optionOr (includeText options) True) (optionOr (includeOCR options) True)
       (optionOr (includeMetadata options) True) files []"

definition search ::
  "regExpEngine \<Rightarrow> (string \<Rightarrow> string \<Rightarrow> int) \<Rightarrow> string \<Rightarrow> ExtractedFile list \<Rightarrow> SearchOptions
     \<Rightarrow> SearchResult list option" where
  "search regExp localeCompare query files options =
     (let sortBy' = optionOr (sortBy options) Relevance;
          maxResults' = optionOr (maxResults options) 50;
          threshold' = optionOr (threshold options) 0.1
      in case collectResults regExp query files options of
           None \<Rightarrow> None
         | Some results \<Rightarrow>
             (let filteredResults =
                    filter (\<lambda>result. num_ge (relevanceScore result) threshold') results;
                  sortedResults = sortResults localeCompare filteredResults sortBy'
              in Some (slice sortedResults maxResults')))"

definition defaultOptions :: SearchOptions where
  "defaultOptions =
     \<lparr>includeText = None, includeOCR = None, includeMetadata = None, sortBy = None,
      maxResults = None, threshold = None\<rparr>"

subsection \<open>The matchers of one document\<close>

text \<open>
  What each block of the loop body pushes for one file: the text matcher, the OCR matcher
  (all images), the metadata matcher, the table matcher (all tables), the summary matcher and
  the keyword matcher. \<open>appendAll\<close> concatenates outputs, and has a value when all of them
  have one.
\<close>

fun appendAll :: "'a list option list \<Rightarrow> 'a list option" where
  "appendAll [] = Some []"
| "appendAll (x # xs) =
     (case x of
        None \<Rightarrow> None
      | Some a \<Rightarrow> (case appendAll xs of None \<Rightarrow> None | Some b \<Rightarrow> Some (a @ b)))"

definition textMatcher :: "regExpEngine \<Rightarrow> string \<Rightarrow> bool \<Rightarrow> ExtractedFile \<Rightarrow> SearchResult list option" where
  "textMatcher regExp query includeText' file =
     (if includeText' \<and> text' (extractedContent file) \<noteq> []
      then searchInText regExp query (text' (extractedContent file)) (id' file) (name file) Text
      else Some [])"

definition ocrMatcher :: "regExpEngine \<Rightarrow> string \<Rightarrow> bool \<Rightarrow> ExtractedFile \<Rightarrow> SearchResult list option" where
  "ocrMatcher regExp query includeOCR' file =
     (if includeOCR'
      then appendAll
             (map (\<lambda>image'. case ocrText image' of
                      None \<Rightarrow> Some []
                    | Some t \<Rightarrow>
                        if t \<noteq> [] then searchInText regExp query t (id' file) (name file) Ocr
                        else Some [])
                (images (extractedContent file)))
      else Some [])"

definition metadataMatcher :: "string \<Rightarrow> bool \<Rightarrow> ExtractedFile \<Rightarrow> SearchResult list" where
  "metadataMatcher query includeMetadata' file =
     (if includeMetadata' then searchInMetadata query file else [])"

definition tableMatcher :: "string \<Rightarrow> ExtractedFile \<Rightarrow> SearchResult list" where
  "tableMatcher query file =
     concat (map (\<lambda>table. searchInTable query table (id' file) (name file))
               (tables (extractedContent file)))"

definition summaryMatcher :: "regExpEngine \<Rightarrow> string \<Rightarrow> ExtractedFile \<Rightarrow> SearchResult list option" where
  "summaryMatcher regExp query file =
     (case summary (extractedContent file) of
        None \<Rightarrow> Some []
      | Some s \<Rightarrow>
          if s \<noteq> [] then searchInText regExp query s (id' file) (name file) Text else Some [])"

definition keywordMatcher :: "string \<Rightarrow> ExtractedFile \<Rightarrow> SearchResult list" where
  "keywordMatcher query file =
     (case keywords' (extractedContent file) of
        None \<Rightarrow> []
      | Some ks \<Rightarrow> searchInKeywords query ks (id' file) (name file))"

text \<open>The candidates of one file in the order of the blocks of the loop body, and in the
  order in which the specification lists the matchers (the summary matcher third).\<close>

definition fileCandidates ::
  "regExpEngine \<Rightarrow> string \<Rightarrow> bool \<Rightarrow> bool \<Rightarrow> bool \<Rightarrow> ExtractedFile \<Rightarrow> SearchResult list option" where
  "fileCandidates regExp query includeText' includeOCR' includeMetadata' file =
     appendAll
       [textMatcher regExp query includeText' file,
        ocrMatcher regExp query includeOCR' file,
        Some (metadataMatcher query includeMetadata' file),
        Some (tableMatcher query file),
        summaryMatcher regExp query file,
        Some (keywordMatcher query file)]"

definition fileCandidates_spec_order ::
  "regExpEngine \<Rightarrow> string \<Rightarrow> bool \<Rightarrow> bool \<Rightarrow> bool \<Rightarrow> ExtractedFile \<Rightarrow> SearchResult list option" where
  "fileCandidates_spec_order regExp query includeText' includeOCR' includeMetadata' file =
     appendAll
       [textMatcher regExp query includeText' file,
        ocrMatcher regExp query includeOCR' file,
        summaryMatcher regExp query file,
        Some (metadataMatcher query includeMetadata' file),
        Some (tableMatcher query file),
        Some (keywordMatcher query file)]"

subsection \<open>The tokenizer as the specification words it\<close>

text \<open>Lowercase, replace every character outside \<open>[A-Za-z0-9]\<close> and white space by a space,
  split on runs of white space, discard the terms of length at most 2.\<close>

definition isAlnum :: "char \<Rightarrow> bool" where
  "isAlnum c =
     (let n = codeUnit c
      in (48 \<le> n \<and> n \<le> 57) \<or> (65 \<le> n \<and> n \<le> 90) \<or> (97 \<le> n \<and> n \<le> 122))"

definition normalize_spec :: "string \<Rightarrow> string list" where
  "normalize_spec s =
     filter (\<lambda>term. 2 < length term)
       (whiteSpaceRuns []
          (map (\<lambda>c. if isAlnum c \<or> isWhiteSpace c then c else CHR '' '') (toLowerCase s)))"

subsection \<open>The relevance score as the specification words it\<close>

text \<open>The count of the term across the text, case-insensitively (occurrences that do not
  overlap, from the left), and the formula of the score with this count.\<close>

definition termOccurrenceCount_spec :: "string \<Rightarrow> string \<Rightarrow> nat" where
  "termOccurrenceCount_spec term fullText =
     matchCountLoop 0 (toLowerCase fullText) (toLowerCase term)"

definition relevanceScore_spec :: "string \<Rightarrow> string \<Rightarrow> string \<Rightarrow> real" where
  "relevanceScore_spec term fullText context =
     min 1
       (0.5
        + (if includes' (toLowerCase context) (toLowerCase term) then 0.3 else 0)
        + min 0.2 (real (termOccurrenceCount_spec term fullText) * 0.05)
        + (case indexOf (toLowerCase fullText) (toLowerCase term) 0 of
             None \<Rightarrow> 0
           | Some p \<Rightarrow> (1 - real p / real (length fullText)) * 0.1))"

subsection \<open>Example inputs\<close>

text \<open>
  A regular-expression engine for the patterns made of the dot and of characters that are no
  syntax characters, a possible \<open>regExp\<close> on these patterns: the dot matches every character
  but a line terminator, every other character matches itself, and the matches are counted
  from left to right without overlap. It takes every other pattern for a SyntaxError, as
  \<open>new RegExp\<close> does for an unbalanced parenthesis.
\<close>

definition matchesChar :: "char \<Rightarrow> char \<Rightarrow> bool" where
  "matchesChar pc c =
     (if codeUnit pc = 46 then codeUnit c \<noteq> 10 \<and> codeUnit c \<noteq> 13 else pc = c)"

fun matchesAt :: "string \<Rightarrow> string \<Rightarrow> bool" where
  "matchesAt s [] = True"
| "matchesAt [] (pc # p) = False"
| "matchesAt (c # cs) (pc # p) = (matchesChar pc c \<and> matchesAt cs p)"

fun dotCountLoop :: "nat \<Rightarrow> string \<Rightarrow> string \<Rightarrow> nat" where
  "dotCountLoop skip [] p = (if p = [] then 1 else 0)"
| "dotCountLoop skip (c # cs) p =
     (if 0 < skip then dotCountLoop (skip - 1) cs p
      else if matchesAt (c # cs) p then Suc (dotCountLoop (length p - 1) cs p)
      else dotCountLoop 0 cs p)"

definition dotRegExp :: regExpEngine where
  "dotRegExp p s =
     (if list_all (\<lambda>c. codeUnit c = 46 \<or> \<not> isSyntaxCharacter c) p
      then Some (dotCountLoop 0 s p) else None)"


text \<open>A collation that orders strings alphabetically whatever the case of their letters, as
  the collations of the common locales do on ASCII letters: a possible \<open>localeCompare\<close>.\<close>

definition caseFoldingCompare :: "string \<Rightarrow> string \<Rightarrow> int" where
  "caseFoldingCompare a b =
     (if toLowerCase a < toLowerCase b then - 1
      else if toLowerCase b < toLowerCase a then 1 else 0)"

definition emptyContent :: ExtractedContent where
  "emptyContent =
     \<lparr>text' = [], images = [], tables = [], metadata = \<lparr>title = None, author = None\<rparr>,
      summary = None, keywords' = None\<rparr>"

definition revenueText :: string where
  "revenueText = ''The quarterly revenue report shows revenue growth in Q1 2023.''"

definition revenueFile :: "string \<Rightarrow> string \<Rightarrow> ExtractedFile" where
  "revenueFile fileId' fileName' =
     \<lparr>id' = fileId', name = fileName', extractedContent = emptyContent\<lparr>text' := revenueText\<rparr>\<rparr>"

definition nameAmountTable :: ExtractedTable where
  "nameAmountTable =
     \<lparr>headers = [''Name'', ''Amount''], rows = [[''Alice'', ''100''], [''Bob'', ''200'']]\<rparr>"

definition tableFile :: ExtractedFile where
  "tableFile =
     \<lparr>id' = ''f1'', name = ''people.xlsx'',
      extractedContent = emptyContent\<lparr>tables := [nameAmountTable]\<rparr>\<rparr>"

definition titledFile :: ExtractedFile where
  "titledFile =
     \<lparr>id' = ''f2'', name = ''report.pdf'',
      extractedContent =
        emptyContent\<lparr>metadata := \<lparr>title = Some ''Revenue'', author = None\<rparr>,
                      summary := Some ''revenue grows''\<rparr>\<rparr>"

definition keywordFile :: ExtractedFile where
  "keywordFile =
     \<lparr>id' = ''f3'', name = ''notes.txt'',
      extractedContent = emptyContent\<lparr>keywords' := Some [''budget'']\<rparr>\<rparr>"

definition budgetFile :: ExtractedFile where
  "budgetFile =
     \<lparr>id' = ''f4'', name = ''plan.xlsx'',
      extractedContent =
        emptyContent\<lparr>tables := [\<lparr>headers = [''Item'', ''Budget''],
                                  rows = [[''Marketing budget'', ''100'']]\<rparr>],
                      summary := Some ''budget plan'',
                      keywords' := Some [''budget'']\<rparr>\<rparr>"

definition noSwitches :: SearchOptions where
  "noSwitches =
     defaultOptions\<lparr>includeText := Some False, includeOCR := Some False,
                    includeMetadata := Some False\<rparr>"

definition namedResult :: "string \<Rightarrow> real \<Rightarrow> SearchResult" where
  "namedResult fileName' score =
     \<lparr>fileId = fileName', fileName = fileName', content = [], relevanceScore = Num score,
      matchType = Text, context' = []\<rparr>"

definition exampleResults :: "SearchResult list" where
  "exampleResults = [namedResult ''B'' (1 / 2), namedResult ''a'' (7 / 10)]"

section \<open>Properties of the tokenizer\<close>

lemma codeUnit_char_of: "n < 256 \<Longrightarrow> codeUnit (char_of n) = n"
  by (simp add: codeUnit_def)

lemma codeUnit_toLowerChar:
  "codeUnit (toLowerChar c) =
     (if (65 \<le> codeUnit c \<and> codeUnit c \<le> 90) \<or>
         (192 \<le> codeUnit c \<and> codeUnit c \<le> 222 \<and> codeUnit c \<noteq> 215)
      then codeUnit c + 32 else codeUnit c)"
  by (simp add: toLowerChar_def Let_def codeUnit_char_of)

lemma toLowerChar_word:
  "isWordChar (toLowerChar c) \<Longrightarrow> isLowerWordChar (toLowerChar c)"
  unfolding isWordChar_def isLowerWordChar_def Let_def codeUnit_toLowerChar
  by (cases "(65 \<le> codeUnit c \<and> codeUnit c \<le> 90) \<or>
         (192 \<le> codeUnit c \<and> codeUnit c \<le> 222 \<and> codeUnit c \<noteq> 215)"; simp; arith)

lemma length_toLowerCase [simp]: "length (toLowerCase s) = length s"
  by (simp add: toLowerCase_def)

lemma isWhiteSpace_space: "isWhiteSpace CHR '' ''"
  by (simp add: isWhiteSpace_def codeUnit_def)

lemma splitLoop_chars:
  "t \<in> set (splitLoop inRun cur s) \<Longrightarrow> c \<in> set t \<Longrightarrow>
     c \<in> set cur \<or> (c \<in> set s \<and> \<not> isWhiteSpace c)"
  by (induction inRun cur s rule: splitLoop.induct) (auto split: if_splits)

lemma replaceNonWord_lower:
  "c \<in> set (replaceNonWord (toLowerCase s)) \<Longrightarrow> \<not> isWhiteSpace c \<Longrightarrow> isLowerWordChar c"
  by (auto simp: replaceNonWord_def toLowerCase_def toLowerChar_word isWhiteSpace_space
      split: if_splits)

lemma preprocessQuery_chars:
  "t \<in> set (preprocessQuery s) \<Longrightarrow> c \<in> set t \<Longrightarrow> isLowerWordChar c"
  unfolding preprocessQuery_def splitWhiteSpace_def
  using splitLoop_chars replaceNonWord_lower by fastforce

lemma preprocessQuery_length: "t \<in> set (preprocessQuery s) \<Longrightarrow> 2 < length t"
  by (simp add: preprocessQuery_def)

text \<open>The empty fields that \<open>split\<close> leaves at the ends do not pass the length filter: the
  terms are the runs of characters other than white space that are longer than 2.\<close>

lemma splitLoop_runs:
  "(inRun \<longrightarrow> cur = []) \<Longrightarrow>
     filter (\<lambda>t. 2 < length t) (splitLoop inRun cur s)
       = filter (\<lambda>t. 2 < length t) (whiteSpaceRuns cur s)"
  by (induction inRun cur s rule: splitLoop.induct) auto

lemma preprocessQuery_runs:
  "preprocessQuery s
     = filter (\<lambda>t. 2 < length t) (whiteSpaceRuns [] (replaceNonWord (toLowerCase s)))"
  by (simp add: preprocessQuery_def splitWhiteSpace_def splitLoop_runs)

lemma preprocessQuery_Nil: "preprocessQuery [] = []"
  by (simp add: preprocessQuery_def splitWhiteSpace_def replaceNonWord_def toLowerCase_def)

lemma preprocessQuery_example:
  "preprocessQuery ''Hello, World_1! ab'' = [''hello'', ''world_1'']"
  by code_simp

text \<open>
  C5, as the claim states it, fails: the class \<open>\w\<close> of the regular expression holds the
  underscore, which is therefore kept and is part of a term, where the specification's
  tokenizer splits the term at it.
\<close>

theorem preprocessQuery_underscore_counterexample:
  "preprocessQuery ''foo_bar'' = [''foo_bar'']
   \<and> normalize_spec ''foo_bar'' = [''foo'', ''bar'']
   \<and> \<not> list_all isLowerAlnum ''foo_bar''"
proof -
  have "preprocessQuery ''foo_bar'' = [''foo_bar'']"
    by code_simp
  moreover have "normalize_spec ''foo_bar'' = [''foo'', ''bar'']"
    by code_simp
  moreover have "\<not> list_all isLowerAlnum ''foo_bar''"
    by code_simp
  ultimately show ?thesis by blast
qed

text \<open>
  C5 (amended): the tokenizer lowercases its input, replaces every character outside
  \<open>[A-Za-z0-9_]\<close> and white space by a space, splits on runs of white space and discards the
  terms of length at most 2; every term it returns is longer than 2 and made of characters
  of \<open>[a-z0-9_]\<close>, and the empty input yields the empty sequence.
\<close>

theorem preprocessQuery_tokenizer:
  "preprocessQuery s
     = filter (\<lambda>t. 2 < length t) (whiteSpaceRuns [] (replaceNonWord (toLowerCase s)))
   \<and> (\<forall>t \<in> set (preprocessQuery s). 2 < length t \<and> list_all isLowerWordChar t)
   \<and> preprocessQuery [] = []"
proof (intro conjI ballI)
  show "preprocessQuery s
     = filter (\<lambda>t. 2 < length t) (whiteSpaceRuns [] (replaceNonWord (toLowerCase s)))"
    by (rule preprocessQuery_runs)
next
  fix t assume "t \<in> set (preprocessQuery s)"
  then show "2 < length t" and "list_all isLowerWordChar t"
    by (auto simp: list_all_iff preprocessQuery_length dest: preprocessQuery_chars)
next
  show "preprocessQuery [] = []"
    by (rule preprocessQuery_Nil)
qed

theorem preprocessQuery_tokenizer_witness:
  "''world_1'' \<in> set (preprocessQuery ''Hello, World_1! ab'')
   \<and> 2 < length ''world_1'' \<and> list_all isLowerWordChar ''world_1''"
proof -
  have "''world_1'' \<in> set (preprocessQuery ''Hello, World_1! ab'')"
    by (simp add: preprocessQuery_example)
  with preprocessQuery_tokenizer [of "''Hello, World_1! ab''"] show ?thesis
    by blast
qed

section \<open>Properties of the string search\<close>

lemma startsWith_length: "startsWith s p \<Longrightarrow> length p \<le> length s"
  by (induction s p rule: startsWith.induct) auto

lemma indexOfLoop_bounds:
  "indexOfLoop cs p k = Some j \<Longrightarrow> k \<le> j \<and> j + length p \<le> k + length cs"
proof (induction cs arbitrary: k)
  case Nil
  then show ?case by (simp split: if_splits)
next
  case (Cons c cs)
  show ?case
  proof (cases "startsWith (c # cs) p")
    case True
    with Cons.prems startsWith_length [OF True] show ?thesis by simp
  next
    case False
    with Cons.prems have "indexOfLoop cs p (Suc k) = Some j" by simp
    from Cons.IH [OF this] show ?thesis by simp
  qed
qed

lemma indexOf_bounds:
  assumes "indexOf s p position = Some j"
  shows "min position (length s) \<le> j" and "j + length p \<le> length s"
  using indexOfLoop_bounds [of "drop (min position (length s)) s" p "min position (length s)" j]
    assms
  by (auto simp: indexOf_def Let_def)

lemma indexOf_empty_pattern: "indexOf s [] 0 = Some 0"
  by (cases s) (simp_all add: indexOf_def)

lemma includes_empty_pattern: "includes' s []"
  by (simp add: includes'_def indexOf_empty_pattern)

lemma toLowerCase_Nil [simp]: "toLowerCase [] = []"
  by (simp add: toLowerCase_def)

lemma toLowerCase_eq_Nil [simp]: "toLowerCase s = [] \<longleftrightarrow> s = []"
  by (simp add: toLowerCase_def)

lemma isSyntaxCharacter_toLowerChar:
  "isSyntaxCharacter (toLowerChar c) \<longleftrightarrow> isSyntaxCharacter c"
  unfolding isSyntaxCharacter_def codeUnit_toLowerChar
  by (cases "(65 \<le> codeUnit c \<and> codeUnit c \<le> 90) \<or>
         (192 \<le> codeUnit c \<and> codeUnit c \<le> 222 \<and> codeUnit c \<noteq> 215)"; simp; arith)

lemma regExpLiteral_toLowerCase: "regExpLiteral (toLowerCase s) \<longleftrightarrow> regExpLiteral s"
  by (simp add: regExpLiteral_def toLowerCase_def list_all_iff isSyntaxCharacter_toLowerChar)

lemma isLowerWordChar_not_syntax: "isLowerWordChar c \<Longrightarrow> \<not> isSyntaxCharacter c"
  unfolding isLowerWordChar_def isSyntaxCharacter_def Let_def by auto

lemma preprocessQuery_literal:
  "t \<in> set (preprocessQuery q) \<Longrightarrow> t \<noteq> [] \<and> regExpLiteral t"
  using preprocessQuery_length [of t q] preprocessQuery_chars [of t q]
  by (auto simp: regExpLiteral_def list_all_iff dest: isLowerWordChar_not_syntax)

section \<open>The relevance score\<close>

lemma position_bonus_bounds:
  assumes "indexOf (toLowerCase fullText) (toLowerCase term) 0 = Some p"
  shows "0 \<le> (1 - real p / real (length fullText)) * 0.1"
    and "term \<noteq> [] \<Longrightarrow> 0 < length fullText"
proof -
  from indexOf_bounds(2) [OF assms] have le: "p + length term \<le> length fullText"
    by simp
  then have "real p / real (length fullText) \<le> 1"
    by (simp add: divide_le_eq_1)
  then show "0 \<le> (1 - real p / real (length fullText)) * 0.1"
    by simp
  show "0 < length fullText" if "term \<noteq> []"
    using le that by (cases "term") auto
qed

lemma calculateRelevanceScore_value:
  assumes "term \<noteq> []" and "regExpLiteral term"
  shows "calculateRelevanceScore regExp term fullText context =
           Some (Num (min 1
             (0.5
              + (if includes' (toLowerCase context) (toLowerCase term) then 0.3 else 0)
              + min 0.2 (real (matchCountLoop 0 (toLowerCase fullText) (toLowerCase term)) * 0.05)
              + (case indexOf (toLowerCase fullText) (toLowerCase term) 0 of
                   None \<Rightarrow> 0
                 | Some p \<Rightarrow> (1 - real p / real (length fullText)) * 0.1))))"
proof (cases "indexOf (toLowerCase fullText) (toLowerCase term) 0")
  case None
  with assms show ?thesis
    by (simp add: calculateRelevanceScore_def regExpMatchCount_def regExpLiteral_toLowerCase)
next
  case (Some p)
  from position_bonus_bounds(2) [OF Some assms(1)] have "length fullText \<noteq> 0"
    by simp
  with assms Some show ?thesis
    by (simp add: calculateRelevanceScore_def regExpMatchCount_def regExpLiteral_toLowerCase
        num_divide_def)
qed

lemma relevance_formula_bounds:
  fixes bonus :: real
  assumes "0 \<le> bonus"
  shows "0 \<le> min 1 (0.5 + (if b then 0.3 else 0) + min 0.2 (real n * 0.05) + bonus)"
    and "min 1 (0.5 + (if b then 0.3 else 0) + min 0.2 (real n * 0.05) + bonus) \<le> 1"
  using assms by auto

lemma calculateRelevanceScore_Num:
  assumes "term \<noteq> []" and "regExpLiteral term"
  shows "\<exists>r. calculateRelevanceScore regExp term fullText context = Some (Num r)"
  using calculateRelevanceScore_value [OF assms] by blast

lemma calculateRelevanceScore_count:
  assumes "\<not> (term = [] \<and> fullText = [])"
    and "regExpMatchCount regExp (toLowerCase term) (toLowerCase fullText) = Some termCount"
  shows "calculateRelevanceScore regExp term fullText context =
           Some (Num (min 1
             (0.5
              + (if includes' (toLowerCase context) (toLowerCase term) then 0.3 else 0)
              + min 0.2 (real termCount * 0.05)
              + (case indexOf (toLowerCase fullText) (toLowerCase term) 0 of
                   None \<Rightarrow> 0
                 | Some p \<Rightarrow> (1 - real p / real (length fullText)) * 0.1))))"
proof (cases "indexOf (toLowerCase fullText) (toLowerCase term) 0")
  case None
  with assms(2) show ?thesis
    by (simp add: calculateRelevanceScore_def)
next
  case (Some p)
  from indexOf_bounds(2) [OF Some] have "p + length term \<le> length fullText"
    by simp
  with assms(1) have "length fullText \<noteq> 0"
    by auto
  with assms(2) Some show ?thesis
    by (simp add: calculateRelevanceScore_def num_divide_def)
qed

lemma regExpMatchCount_literal:
  "regExpLiteral term \<Longrightarrow>
     regExpMatchCount regExp (toLowerCase term) (toLowerCase fullText)
       = Some (termOccurrenceCount_spec term fullText)"
  by (simp add: regExpMatchCount_def regExpLiteral_toLowerCase termOccurrenceCount_spec_def)

text \<open>
  C6, as the claim states it, fails. For the empty term and the empty text the term is found
  at position 0 of a text of length 0, the relative position is \<open>0 / 0\<close>, and the score is
  \<open>NaN\<close>, not a number of \<open>[0, 1]\<close>. The frequency bonus counts the matches of the term read as
  a regular expression, not the occurrences of the term: the term \<open>a.c\<close> does not occur in
  \<open>abc\<close> but matches it once, which gives 0.55 where the formula of the claim gives 0.5. For a
  term that is no regular expression, such as \<open>(\<close>, the scorer throws.
\<close>

theorem calculateRelevanceScore_counterexample:
  "calculateRelevanceScore dotRegExp [] [] [] = Some NaN
   \<and> calculateRelevanceScore dotRegExp ''a.c'' ''abc'' ''abc'' = Some (Num (11 / 20))
   \<and> relevanceScore_spec ''a.c'' ''abc'' ''abc'' = 1 / 2
   \<and> calculateRelevanceScore dotRegExp ''('' ''abc'' ''abc'' = None"
proof -
  have "calculateRelevanceScore dotRegExp [] [] [] = Some NaN"
    by code_simp
  moreover have
    "calculateRelevanceScore dotRegExp ''a.c'' ''abc'' ''abc'' = Some (Num (11 / 20))"
    by code_simp
  moreover have "relevanceScore_spec ''a.c'' ''abc'' ''abc'' = 1 / 2"
    by code_simp
  moreover have "calculateRelevanceScore dotRegExp ''('' ''abc'' ''abc'' = None"
    by code_simp
  ultimately show ?thesis
    by blast
qed

text \<open>
  C6 (amended): for every term whose regular expression exists (\<open>new RegExp\<close> does not throw),
  every full text and every context window, the empty term with the empty text apart, the
  relevance score is the number
  \<open>min(1, 0.5 + (0.3 if the context contains the term, case-insensitively, else 0)
  + min(0.2, termCount * 0.05)
  + (if the term occurs in the text: (1 - firstOccurrenceOffset / textLength) * 0.1, else 0))\<close>,
  where \<open>termCount\<close> is the number of matches of the term, read as a regular expression, in the
  text, and it lies in \<open>[0, 1]\<close>. For a term without syntax characters of regular expressions
  (every term of the tokenizer is such a term) \<open>termCount\<close> is the number of occurrences of
  the term that do not overlap, and the score is the formula of the specification.
\<close>

theorem calculateRelevanceScore_formula:
  assumes "\<not> (term = [] \<and> fullText = [])"
    and "regExpMatchCount regExp (toLowerCase term) (toLowerCase fullText) = Some termCount"
  shows "\<exists>r. calculateRelevanceScore regExp term fullText context = Some (Num r)
           \<and> r = min 1
               (0.5
                + (if includes' (toLowerCase context) (toLowerCase term) then 0.3 else 0)
                + min 0.2 (real termCount * 0.05)
                + (case indexOf (toLowerCase fullText) (toLowerCase term) 0 of
                     None \<Rightarrow> 0
                   | Some p \<Rightarrow> (1 - real p / real (length fullText)) * 0.1))
           \<and> 0 \<le> r \<and> r \<le> 1
           \<and> (regExpLiteral term \<longrightarrow>
                termCount = termOccurrenceCount_spec term fullText
                \<and> r = relevanceScore_spec term fullText context)"
proof -
  define r where "r = min 1
               (0.5
                + (if includes' (toLowerCase context) (toLowerCase term) then 0.3 else 0)
                + min 0.2 (real termCount * 0.05)
                + (case indexOf (toLowerCase fullText) (toLowerCase term) 0 of
                     None \<Rightarrow> 0
                   | Some p \<Rightarrow> (1 - real p / real (length fullText)) * 0.1))"
  have "0 \<le> (case indexOf (toLowerCase fullText) (toLowerCase term) 0 of
                None \<Rightarrow> 0
              | Some p \<Rightarrow> (1 - real p / real (length fullText)) * 0.1)"
    using position_bonus_bounds(1) by (auto split: option.splits)
  from relevance_formula_bounds [OF this] have bounds: "0 \<le> r" "r \<le> 1"
    unfolding r_def by blast+
  have score: "calculateRelevanceScore regExp term fullText context = Some (Num r)"
    unfolding r_def by (rule calculateRelevanceScore_count [OF assms])
  have "termCount = termOccurrenceCount_spec term fullText
        \<and> r = relevanceScore_spec term fullText context" if "regExpLiteral term"
  proof -
    from regExpMatchCount_literal [OF that, of regExp fullText] assms(2)
    have "termCount = termOccurrenceCount_spec term fullText"
      by simp
    then show ?thesis
      by (simp add: r_def relevanceScore_spec_def)
  qed
  with score bounds r_def show ?thesis
    by blast
qed

theorem calculateRelevanceScore_formula_witness:
  "\<not> (''cat'' = [] \<and> ''A cat and a Cat.'' = [])
   \<and> regExpMatchCount dotRegExp (toLowerCase ''cat'') (toLowerCase ''A cat and a Cat.'') = Some 2
   \<and> calculateRelevanceScore dotRegExp ''cat'' ''A cat and a Cat.'' ''A cat''
       = Some (Num (79 / 80))
   \<and> \<not> ([] = [] \<and> ''abc'' = [])
   \<and> regExpMatchCount dotRegExp (toLowerCase []) (toLowerCase ''abc'') = Some 4
   \<and> calculateRelevanceScore dotRegExp [] ''abc'' ''abc'' = Some (Num 1)"
proof -
  have ne1: "\<not> (''cat'' = [] \<and> ''A cat and a Cat.'' = [])"
    and ne2: "\<not> ([] = [] \<and> ''abc'' = [])"
    by simp_all
  have c1: "regExpMatchCount dotRegExp (toLowerCase ''cat'') (toLowerCase ''A cat and a Cat.'')
              = Some 2"
    and c2: "regExpMatchCount dotRegExp (toLowerCase []) (toLowerCase ''abc'') = Some 4"
    by code_simp+
  have i1: "includes' (toLowerCase ''A cat'') (toLowerCase ''cat'')"
    and p1: "indexOf (toLowerCase ''A cat and a Cat.'') (toLowerCase ''cat'') 0 = Some 2"
    and i2: "includes' (toLowerCase ''abc'') (toLowerCase [])"
    and p2: "indexOf (toLowerCase ''abc'') (toLowerCase []) 0 = Some 0"
    by code_simp+
  from calculateRelevanceScore_formula [OF ne1 c1, of "''A cat''"] i1 p1
  obtain r1 where
    "calculateRelevanceScore dotRegExp ''cat'' ''A cat and a Cat.'' ''A cat'' = Some (Num r1)"
    and "r1 = 79 / 80"
    by auto
  moreover from calculateRelevanceScore_formula [OF ne2 c2, of "''abc''"] i2 p2
  obtain r2 where
    "calculateRelevanceScore dotRegExp [] ''abc'' ''abc'' = Some (Num r2)" and "r2 = 1"
    by auto
  ultimately show ?thesis
    using ne1 ne2 c1 c2 by simp
qed

section \<open>The similarity estimator\<close>

text \<open>
  C8: for every query and text the similarity is \<open>|intersection| / |union|\<close> of the two sets
  of normalized terms, it is 0 when the union is empty, and it lies in \<open>[0, 1]\<close>.
\<close>

theorem calculateSemanticSimilarity_jaccard:
  "calculateSemanticSimilarity query text =
     (if set (preprocessQuery query) \<union> set (preprocessQuery text) = {} then 0
      else real (card (set (preprocessQuery query) \<inter> set (preprocessQuery text)))
           / real (card (set (preprocessQuery query) \<union> set (preprocessQuery text))))
   \<and> 0 \<le> calculateSemanticSimilarity query text
   \<and> calculateSemanticSimilarity query text \<le> 1"
proof -
  define Q where "Q = set (preprocessQuery query)"
  define T where "T = set (preprocessQuery text)"
  have fin: "finite (Q \<union> T)"
    by (simp add: Q_def T_def)
  have inter: "{a \<in> Q. a \<in> T} = Q \<inter> T"
    by auto
  have sim: "calculateSemanticSimilarity query text =
     (if 0 < card (Q \<union> T) then real (card (Q \<inter> T)) / real (card (Q \<union> T)) else 0)"
    by (simp add: calculateSemanticSimilarity_def Let_def inter Q_def [symmetric]
        T_def [symmetric])
  have "card (Q \<inter> T) \<le> card (Q \<union> T)"
    using fin by (intro card_mono) auto
  then have le: "real (card (Q \<inter> T)) / real (card (Q \<union> T)) \<le> 1"
    by (auto simp: divide_le_eq_1)
  have zero: "0 < card (Q \<union> T) \<longleftrightarrow> Q \<union> T \<noteq> {}"
    using fin card_gt_0_iff by blast
  show ?thesis
    unfolding Q_def [symmetric] T_def [symmetric] sim zero using le by simp
qed

theorem calculateSemanticSimilarity_jaccard_witness:
  "calculateSemanticSimilarity ''financial results'' ''Annual financial results and outlook''
     = 2 / 5
   \<and> calculateSemanticSimilarity ''a'' ''!'' = 0"
proof -
  have i: "card (set (preprocessQuery ''financial results'')
                 \<inter> set (preprocessQuery ''Annual financial results and outlook'')) = 2"
    by code_simp
  have u: "card (set (preprocessQuery ''financial results'')
                 \<union> set (preprocessQuery ''Annual financial results and outlook'')) = 5"
    by code_simp
  have e: "set (preprocessQuery ''a'') \<union> set (preprocessQuery ''!'') = {}"
    by code_simp
  have n: "set (preprocessQuery ''financial results'')
             \<union> set (preprocessQuery ''Annual financial results and outlook'') \<noteq> {}"
    using u by force
  show ?thesis
    using calculateSemanticSimilarity_jaccard [of "''financial results''"
        "''Annual financial results and outlook''"]
      calculateSemanticSimilarity_jaccard [of "''a''" "''!''"]
    unfolding i u e using n by simp
qed

section \<open>The text matcher returns\<close>

text \<open>
  For a term that is not empty the loop of \<open>searchInText\<close> ends, since every round moves
  \<open>index\<close> behind an occurrence; it extends \<open>results\<close> by results whose score is a number.
\<close>

lemma searchInText_while_returns:
  assumes "term \<noteq> []" and "regExpLiteral term"
  shows "\<exists>new. searchInText_while regExp text textLower term fid fn mt index results
                 = Some (results @ new)
               \<and> (\<forall>r \<in> set new. relevanceScore r \<noteq> NaN)"
proof (induction "length textLower - index" arbitrary: index results rule: less_induct)
  case less
  show ?case
  proof (cases "indexOf textLower (toLowerCase term) index")
    case None
    then show ?thesis
      by (subst searchInText_while.simps) simp
  next
    case (Some i)
    from indexOf_bounds [OF Some] assms(1)
    have "length textLower - (i + length (toLowerCase term)) < length textLower - index"
      by (cases "term") auto
    from less [OF this] obtain new' where
      new': "\<And>results'. \<exists>new.
               searchInText_while regExp text textLower term fid fn mt
                 (i + length (toLowerCase term)) results' = Some (results' @ new)
               \<and> (\<forall>r \<in> set new. relevanceScore r \<noteq> NaN)"
      by blast
    obtain x where x:
      "calculateRelevanceScore regExp term text (extractContext text i (length (toLowerCase term)))
         = Some (Num x)"
      using calculateRelevanceScore_Num [OF assms] by blast
    let ?r = "\<lparr>fileId = fid, fileName = fn,
               content = extractContext text i (length (toLowerCase term)),
               relevanceScore = Num x, matchType = mt,
               context' = extractContext text i (length (toLowerCase term))\<rparr>"
    from new' [of "results @ [?r]"] obtain new where
      "searchInText_while regExp text textLower term fid fn mt
         (i + length (toLowerCase term)) (results @ [?r]) = Some ((results @ [?r]) @ new)"
      and "\<forall>r \<in> set new. relevanceScore r \<noteq> NaN"
      by blast
    then have "searchInText_while regExp text textLower term fid fn mt index results
                 = Some (results @ (?r # new))
               \<and> (\<forall>r \<in> set (?r # new). relevanceScore r \<noteq> NaN)"
      using Some x by (subst searchInText_while.simps) (simp add: Let_def)
    then show ?thesis by blast
  qed
qed

lemma searchInText_while_no_match:
  assumes "indexOf textLower (toLowerCase term) index = None"
  shows "searchInText_while regExp text textLower term fid fn mt index results = Some results"
  using assms by (subst searchInText_while.simps) simp

lemma searchInText_terms_returns:
  assumes "\<forall>t \<in> set queryTerms. t \<noteq> [] \<and> regExpLiteral t"
  shows "\<exists>new. searchInText_terms regExp text textLower fid fn mt queryTerms results
                 = Some (results @ new)
               \<and> (\<forall>r \<in> set new. relevanceScore r \<noteq> NaN)"
  using assms
proof (induction queryTerms arbitrary: results)
  case Nil
  then show ?case by simp
next
  case (Cons t queryTerms)
  then have t: "t \<noteq> []" "regExpLiteral t"
    by simp_all
  from searchInText_while_returns [OF t] obtain new1 where
    1: "searchInText_while regExp text textLower t fid fn mt 0 results = Some (results @ new1)"
    and n1: "\<forall>r \<in> set new1. relevanceScore r \<noteq> NaN"
    by blast
  from Cons.IH [of "results @ new1"] Cons.prems obtain new2 where
    2: "searchInText_terms regExp text textLower fid fn mt queryTerms (results @ new1)
          = Some ((results @ new1) @ new2)"
    and n2: "\<forall>r \<in> set new2. relevanceScore r \<noteq> NaN"
    by auto
  from 1 2 n1 n2 have
    "searchInText_terms regExp text textLower fid fn mt (t # queryTerms) results
       = Some (results @ (new1 @ new2))
     \<and> (\<forall>r \<in> set (new1 @ new2). relevanceScore r \<noteq> NaN)"
    by auto
  then show ?case by blast
qed

lemma deduplicateLoop_subset: "set (deduplicateLoop seen rs) \<subseteq> set rs"
  by (induction rs arbitrary: seen) (auto simp: Let_def)

lemma searchInText_returns:
  "\<exists>rs. searchInText regExp query text fid fn mt = Some rs
        \<and> (\<forall>r \<in> set rs. relevanceScore r \<noteq> NaN)"
proof -
  have "\<forall>t \<in> set (preprocessQuery query). t \<noteq> [] \<and> regExpLiteral t"
    using preprocessQuery_literal by blast
  from searchInText_terms_returns [OF this, of regExp "text" "toLowerCase text" fid fn mt "[]"]
  obtain new where
    "searchInText_terms regExp text (toLowerCase text) fid fn mt (preprocessQuery query) [] = Some new"
    and "\<forall>r \<in> set new. relevanceScore r \<noteq> NaN"
    by auto
  then show ?thesis
    using deduplicateLoop_subset [of "{}" new]
    by (auto simp: searchInText_def deduplicateResults_def)
qed

lemma searchInText_empty_query: "searchInText regExp [] text fid fn mt = Some []"
  by (simp add: searchInText_def preprocessQuery_Nil deduplicateResults_def)

lemma searchInText_no_match:
  assumes "\<forall>t \<in> set (preprocessQuery query). \<not> includes' (toLowerCase text) (toLowerCase t)"
  shows "searchInText regExp query text fid fn mt = Some []"
proof -
  have "searchInText_terms regExp text (toLowerCase text) fid fn mt queryTerms results = Some results"
    if "\<forall>t \<in> set queryTerms. \<not> includes' (toLowerCase text) (toLowerCase t)"
    for queryTerms results
    using that
    by (induction queryTerms arbitrary: results)
       (simp_all add: includes'_def searchInText_while_no_match)
  from this [OF assms] show ?thesis
    by (simp add: searchInText_def deduplicateResults_def)
qed

section \<open>The candidates of a search\<close>

lemma appendAll_returns:
  assumes "\<forall>x \<in> set xs. \<exists>a. x = Some a \<and> (\<forall>r \<in> set a. P r)"
  shows "\<exists>b. appendAll xs = Some b \<and> (\<forall>r \<in> set b. P r)"
  using assms
proof (induction xs)
  case Nil
  then show ?case by simp
next
  case (Cons x xs)
  then obtain a b where "x = Some a" "\<forall>r \<in> set a. P r"
    "appendAll xs = Some b" "\<forall>r \<in> set b. P r"
    by auto
  then show ?case by auto
qed

lemma appendAll_empty:
  "\<forall>x \<in> set xs. x = Some [] \<Longrightarrow> appendAll xs = Some []"
  by (induction xs) auto

lemma appendAll_Some: "appendAll (map Some xs) = Some (concat xs)"
  by (induction xs) auto

lemma searchInMetadata_numbers:
  "r \<in> set (searchInMetadata query file) \<Longrightarrow> relevanceScore r \<noteq> NaN"
  by (auto simp: searchInMetadata_def Let_def split: option.splits if_splits)

lemma searchInTable_headers_numbers:
  "r \<in> set (searchInTable_headers q fid fn hs) \<Longrightarrow> relevanceScore r \<noteq> NaN"
  by (induction hs) (auto split: if_splits)

lemma searchInTable_row_numbers:
  "r \<in> set (searchInTable_row q fid fn i j cells) \<Longrightarrow> relevanceScore r \<noteq> NaN"
  by (induction cells arbitrary: j) (auto split: if_splits)

lemma searchInTable_rows_numbers:
  "r \<in> set (searchInTable_rows q fid fn i rs) \<Longrightarrow> relevanceScore r \<noteq> NaN"
  by (induction rs arbitrary: i) (auto dest: searchInTable_row_numbers)

lemma searchInTable_numbers:
  "r \<in> set (searchInTable query table fid fn) \<Longrightarrow> relevanceScore r \<noteq> NaN"
  by (auto simp: searchInTable_def Let_def
      dest: searchInTable_headers_numbers searchInTable_rows_numbers)

lemma searchInKeywords_loop_numbers:
  "r \<in> set (searchInKeywords_loop q fid fn ks) \<Longrightarrow> relevanceScore r \<noteq> NaN"
  by (induction ks) (auto split: if_splits)

lemma textMatcher_returns:
  "\<exists>rs. textMatcher regExp query b file = Some rs \<and> (\<forall>r \<in> set rs. relevanceScore r \<noteq> NaN)"
  using searchInText_returns by (simp add: textMatcher_def)

lemma summaryMatcher_returns:
  "\<exists>rs. summaryMatcher regExp query file = Some rs \<and> (\<forall>r \<in> set rs. relevanceScore r \<noteq> NaN)"
  using searchInText_returns by (simp add: summaryMatcher_def split: option.splits)

lemma ocrMatcher_returns:
  "\<exists>rs. ocrMatcher regExp query b file = Some rs \<and> (\<forall>r \<in> set rs. relevanceScore r \<noteq> NaN)"
proof (cases b)
  case True
  have "\<exists>a. (case ocrText i of
               None \<Rightarrow> Some []
             | Some t \<Rightarrow> if t \<noteq> [] then searchInText regExp query t (id' file) (name file) Ocr
                         else Some []) = Some a
            \<and> (\<forall>r \<in> set a. relevanceScore r \<noteq> NaN)" for i
    using searchInText_returns by (simp split: option.splits)
  then have "\<exists>rs. appendAll
               (map (\<lambda>image'. case ocrText image' of
                        None \<Rightarrow> Some []
                      | Some t \<Rightarrow>
                          if t \<noteq> [] then searchInText regExp query t (id' file) (name file) Ocr
                          else Some [])
                  (images (extractedContent file))) = Some rs
             \<and> (\<forall>r \<in> set rs. relevanceScore r \<noteq> NaN)"
    by (intro appendAll_returns) auto
  with True show ?thesis
    by (simp add: ocrMatcher_def)
next
  case False
  then show ?thesis by (simp add: ocrMatcher_def)
qed

lemma metadataMatcher_numbers:
  "\<forall>r \<in> set (metadataMatcher query b file). relevanceScore r \<noteq> NaN"
  by (auto simp: metadataMatcher_def dest: searchInMetadata_numbers)

lemma tableMatcher_numbers: "\<forall>r \<in> set (tableMatcher query file). relevanceScore r \<noteq> NaN"
  by (auto simp: tableMatcher_def dest: searchInTable_numbers)

lemma keywordMatcher_numbers: "\<forall>r \<in> set (keywordMatcher query file). relevanceScore r \<noteq> NaN"
  by (auto simp: keywordMatcher_def searchInKeywords_def split: option.splits
      dest: searchInKeywords_loop_numbers)

lemma fileCandidates_returns:
  "\<exists>rs. fileCandidates regExp query iT iO iM file = Some rs
        \<and> (\<forall>r \<in> set rs. relevanceScore r \<noteq> NaN)"
  unfolding fileCandidates_def
  by (rule appendAll_returns)
     (simp add: textMatcher_returns ocrMatcher_returns summaryMatcher_returns
        metadataMatcher_numbers tableMatcher_numbers keywordMatcher_numbers)

text \<open>The loops push what the matchers return, in the order of the blocks.\<close>

lemma searchImages_pushes:
  "searchImages regExp query fid fn imgs results =
     (case appendAll
             (map (\<lambda>image'. case ocrText image' of
                      None \<Rightarrow> Some []
                    | Some t \<Rightarrow> if t \<noteq> [] then searchInText regExp query t fid fn Ocr else Some [])
                imgs) of
        None \<Rightarrow> None
      | Some new \<Rightarrow> Some (results @ new))"
  by (induction imgs arbitrary: results) (auto split: option.splits)

lemma searchTables_pushes:
  "searchTables query fid fn ts results =
     results @ concat (map (\<lambda>table. searchInTable query table fid fn) ts)"
  by (induction ts arbitrary: results) auto

lemma searchFile_pushes:
  "searchFile regExp query iT iO iM file results =
     (case fileCandidates regExp query iT iO iM file of
        None \<Rightarrow> None
      | Some new \<Rightarrow> Some (results @ new))"
proof -
  obtain t where t: "textMatcher regExp query iT file = Some t"
    using textMatcher_returns by blast
  obtain s where s: "summaryMatcher regExp query file = Some s"
    using summaryMatcher_returns by blast
  obtain ocr where ocr: "ocrMatcher regExp query iO file = Some ocr"
    using ocrMatcher_returns by blast
  have 1: "(if iT \<and> text' (extractedContent file) \<noteq> []
            then do {
              textResults \<leftarrow> searchInText regExp query (text' (extractedContent file)) (id' file)
                               (name file) Text;
              Some (results @ textResults) }
            else Some results) = Some (results @ t)"
    using t by (auto simp: textMatcher_def)
  have 2: "(if iO then searchImages regExp query (id' file) (name file)
                        (images (extractedContent file)) rs
            else Some rs) = Some (rs @ ocr)" for rs
    using ocr by (auto simp: ocrMatcher_def searchImages_pushes split: if_splits)
  have 3: "(if iM then rs @ searchInMetadata query file else rs)
             = rs @ metadataMatcher query iM file" for rs
    by (simp add: metadataMatcher_def)
  have 4: "searchTables query (id' file) (name file) (tables (extractedContent file)) rs
             = rs @ tableMatcher query file" for rs
    by (simp add: searchTables_pushes tableMatcher_def)
  have 5: "(case summary (extractedContent file) of
              None \<Rightarrow> Some rs
            | Some s \<Rightarrow>
                if s \<noteq> []
                then do {
                  summaryResults \<leftarrow> searchInText regExp query s (id' file) (name file) Text;
                  Some (rs @ summaryResults) }
                else Some rs) = Some (rs @ s)" for rs
    using s by (auto simp: summaryMatcher_def split: option.splits if_splits)
  have 6: "(case keywords' (extractedContent file) of
              None \<Rightarrow> rs
            | Some ks \<Rightarrow> rs @ searchInKeywords query ks (id' file) (name file))
             = rs @ keywordMatcher query file" for rs
    by (simp add: keywordMatcher_def split: option.splits)
  show ?thesis
    unfolding searchFile_def Let_def 1 2 3 4 5 6 fileCandidates_def
    by (simp add: t s ocr)
qed

lemma searchFiles_pushes:
  "searchFiles regExp query iT iO iM files results =
     (case appendAll (map (fileCandidates regExp query iT iO iM) files) of
        None \<Rightarrow> None
      | Some new \<Rightarrow> Some (results @ new))"
proof (induction files arbitrary: results)
  case Nil
  then show ?case by simp
next
  case (Cons f files)
  show ?case
    by (simp add: searchFile_pushes Cons.IH split: option.splits)
qed

lemma collectResults_candidates:
  "collectResults regExp query files options =
     appendAll (map (fileCandidates regExp query (optionOr (includeText options) True)
                       (optionOr (includeOCR options) True)
                       (optionOr (includeMetadata options) True)) files)"
  by (simp add: collectResults_def searchFiles_pushes split: option.splits)

lemma collectResults_returns:
  "\<exists>rs. collectResults regExp query files options = Some rs
        \<and> (\<forall>r \<in> set rs. relevanceScore r \<noteq> NaN)"
  unfolding collectResults_candidates
  by (rule appendAll_returns) (simp add: fileCandidates_returns)

section \<open>The order of the matchers\<close>

lemma revenue_summary_candidates:
  "collectResults regExp ''revenue'' [titledFile] defaultOptions =
     Some [\<lparr>fileId = ''f2'', fileName = ''report.pdf'', content = ''Revenue'',
             relevanceScore = Num (9 / 10), matchType = Metadata,
             context' = ''Title: Revenue''\<rparr>,
           \<lparr>fileId = ''f2'', fileName = ''report.pdf'', content = ''revenue grows'',
             relevanceScore = Num (19 / 20), matchType = Text,
             context' = ''revenue grows''\<rparr>]"
  by code_simp

text \<open>
  C3, as the claim states it, fails: the loop body runs the summary matcher after the table
  matcher, not third. For a file with a title and a summary that both hold the query, the
  candidate of the title comes before the candidate of the summary, where the order of the
  specification puts the summary first.
\<close>

theorem collectResults_order_counterexample:
  "collectResults dotRegExp ''revenue'' [titledFile] defaultOptions =
     Some [\<lparr>fileId = ''f2'', fileName = ''report.pdf'', content = ''Revenue'',
             relevanceScore = Num (9 / 10), matchType = Metadata,
             context' = ''Title: Revenue''\<rparr>,
           \<lparr>fileId = ''f2'', fileName = ''report.pdf'', content = ''revenue grows'',
             relevanceScore = Num (19 / 20), matchType = Text,
             context' = ''revenue grows''\<rparr>]
   \<and> appendAll (map (fileCandidates_spec_order dotRegExp ''revenue'' True True True) [titledFile]) =
     Some [\<lparr>fileId = ''f2'', fileName = ''report.pdf'', content = ''revenue grows'',
             relevanceScore = Num (19 / 20), matchType = Text,
             context' = ''revenue grows''\<rparr>,
           \<lparr>fileId = ''f2'', fileName = ''report.pdf'', content = ''Revenue'',
             relevanceScore = Num (9 / 10), matchType = Metadata,
             context' = ''Title: Revenue''\<rparr>]"
proof -
  have "appendAll (map (fileCandidates_spec_order dotRegExp ''revenue'' True True True) [titledFile]) =
     Some [\<lparr>fileId = ''f2'', fileName = ''report.pdf'', content = ''revenue grows'',
             relevanceScore = Num (19 / 20), matchType = Text,
             context' = ''revenue grows''\<rparr>,
           \<lparr>fileId = ''f2'', fileName = ''report.pdf'', content = ''Revenue'',
             relevanceScore = Num (9 / 10), matchType = Metadata,
             context' = ''Title: Revenue''\<rparr>]"
    by code_simp
  with revenue_summary_candidates show ?thesis
    by blast
qed

text \<open>
  C3 (amended): for every document the matchers run in the order text matcher, OCR matcher,
  metadata matcher, table matcher, summary matcher, keyword matcher; every matcher returns,
  and the candidate list before the threshold and the sort is the concatenation of their
  outputs in that order, document after document.
\<close>

theorem collectResults_order:
  "collectResults regExp query files options \<noteq> None
   \<and> collectResults regExp query files options =
     appendAll
       (map (\<lambda>file.
               appendAll
                 [textMatcher regExp query (optionOr (includeText options) True) file,
                  ocrMatcher regExp query (optionOr (includeOCR options) True) file,
                  Some (metadataMatcher query (optionOr (includeMetadata options) True) file),
                  Some (tableMatcher query file),
                  summaryMatcher regExp query file,
                  Some (keywordMatcher query file)])
          files)"
proof
  show "collectResults regExp query files options \<noteq> None"
    using collectResults_returns [of regExp query files options] by auto
  have "fileCandidates regExp query (optionOr (includeText options) True)
          (optionOr (includeOCR options) True) (optionOr (includeMetadata options) True)
        = (\<lambda>file.
             appendAll
               [textMatcher regExp query (optionOr (includeText options) True) file,
                ocrMatcher regExp query (optionOr (includeOCR options) True) file,
                Some (metadataMatcher query (optionOr (includeMetadata options) True) file),
                Some (tableMatcher query file),
                summaryMatcher regExp query file,
                Some (keywordMatcher query file)])"
    by (rule ext) (simp only: fileCandidates_def)
  then show "collectResults regExp query files options =
     appendAll
       (map (\<lambda>file.
               appendAll
                 [textMatcher regExp query (optionOr (includeText options) True) file,
                  ocrMatcher regExp query (optionOr (includeOCR options) True) file,
                  Some (metadataMatcher query (optionOr (includeMetadata options) True) file),
                  Some (tableMatcher query file),
                  summaryMatcher regExp query file,
                  Some (keywordMatcher query file)])
          files)"
    by (simp only: collectResults_candidates)
qed

theorem collectResults_order_witness:
  "map_option (map context') (collectResults dotRegExp ''revenue'' [titledFile] defaultOptions)
     = Some [''Title: Revenue'', ''revenue grows'']"
proof -
  have "appendAll
       (map (\<lambda>file.
               appendAll
                 [textMatcher dotRegExp ''revenue'' (optionOr (includeText defaultOptions) True) file,
                  ocrMatcher dotRegExp ''revenue'' (optionOr (includeOCR defaultOptions) True) file,
                  Some (metadataMatcher ''revenue''
                          (optionOr (includeMetadata defaultOptions) True) file),
                  Some (tableMatcher ''revenue'' file),
                  summaryMatcher dotRegExp ''revenue'' file,
                  Some (keywordMatcher ''revenue'' file)])
          [titledFile]) =
     Some [\<lparr>fileId = ''f2'', fileName = ''report.pdf'', content = ''Revenue'',
             relevanceScore = Num (9 / 10), matchType = Metadata,
             context' = ''Title: Revenue''\<rparr>,
           \<lparr>fileId = ''f2'', fileName = ''report.pdf'', content = ''revenue grows'',
             relevanceScore = Num (19 / 20), matchType = Text,
             context' = ''revenue grows''\<rparr>]"
    by code_simp
  with collectResults_order [of dotRegExp "''revenue''" "[titledFile]" defaultOptions] show ?thesis
    by simp
qed

section \<open>Sorting\<close>

lemma mset_insertSorted: "mset (insertSorted f x ys) = add_mset x (mset ys)"
  by (induction ys) auto

lemma mset_arraySort: "mset (arraySort f xs) = mset xs"
  by (induction xs) (simp_all add: arraySort_def mset_insertSorted)

lemma set_insertSorted: "set (insertSorted f x ys) = insert x (set ys)"
  by (induction ys) auto

lemma set_arraySort: "set (arraySort f xs) = set xs"
  using mset_arraySort [of f xs] by (metis set_mset_mset)

lemma length_arraySort: "length (arraySort f xs) = length xs"
  using mset_arraySort [of f xs] by (metis size_mset)

text \<open>On elements that the comparator orders consistently (it is total and transitive
  there) the sort puts no element before one that it has to come behind.\<close>

lemma sorted_insertSorted:
  assumes total: "\<forall>a \<in> S. \<forall>b \<in> S. num_gt (f a b) 0 \<longrightarrow> \<not> num_gt (f b a) 0"
    and trans: "\<forall>a \<in> S. \<forall>b \<in> S. \<forall>c \<in> S.
                  \<not> num_gt (f a b) 0 \<longrightarrow> \<not> num_gt (f b c) 0 \<longrightarrow> \<not> num_gt (f a c) 0"
    and x: "x \<in> S"
  shows "set ys \<subseteq> S \<Longrightarrow> sorted_wrt (\<lambda>a b. \<not> num_gt (f a b) 0) ys \<Longrightarrow>
           sorted_wrt (\<lambda>a b. \<not> num_gt (f a b) 0) (insertSorted f x ys)"
proof (induction ys)
  case Nil
  then show ?case by simp
next
  case (Cons y ys)
  from Cons.prems have y: "y \<in> S" and ys: "set ys \<subseteq> S"
    and le: "\<forall>z \<in> set ys. \<not> num_gt (f y z) 0"
    and sorted: "sorted_wrt (\<lambda>a b. \<not> num_gt (f a b) 0) ys"
    by simp_all
  show ?case
  proof (cases "num_gt (f x y) 0")
    case True
    from total x y True have "\<not> num_gt (f y x) 0"
      by blast
    with True le Cons.IH [OF ys sorted] show ?thesis
      by (simp add: set_insertSorted)
  next
    case False
    have "\<not> num_gt (f x z) 0" if "z \<in> set ys" for z
    proof -
      from le that have "\<not> num_gt (f y z) 0"
        by blast
      moreover from ys that have "z \<in> S"
        by blast
      ultimately show ?thesis
        using trans x y False by blast
    qed
    with False le sorted show ?thesis
      by simp
  qed
qed

lemma sorted_arraySort:
  assumes total: "\<forall>a \<in> S. \<forall>b \<in> S. num_gt (f a b) 0 \<longrightarrow> \<not> num_gt (f b a) 0"
    and trans: "\<forall>a \<in> S. \<forall>b \<in> S. \<forall>c \<in> S.
                  \<not> num_gt (f a b) 0 \<longrightarrow> \<not> num_gt (f b c) 0 \<longrightarrow> \<not> num_gt (f a c) 0"
  shows "set xs \<subseteq> S \<Longrightarrow> sorted_wrt (\<lambda>a b. \<not> num_gt (f a b) 0) (arraySort f xs)"
proof (induction xs)
  case Nil
  then show ?case by (simp add: arraySort_def)
next
  case (Cons x xs)
  then have x: "x \<in> S" and xs: "set xs \<subseteq> S"
    by simp_all
  have "sorted_wrt (\<lambda>a b. \<not> num_gt (f a b) 0) (insertSorted f x (arraySort f xs))"
    using xs by (intro sorted_insertSorted [OF total trans x] Cons.IH) (simp add: set_arraySort)
  then show ?case
    by (simp add: arraySort_def)
qed

lemma sorted_by_relevance:
  assumes "\<forall>r \<in> set results. relevanceScore r \<noteq> NaN"
  shows "sorted_wrt (\<lambda>a b. \<exists>x y. relevanceScore a = Num x \<and> relevanceScore b = Num y \<and> y \<le> x)
           (sortResults cmp results Relevance)"
proof -
  define f where "f = (\<lambda>(a :: SearchResult) (b :: SearchResult). num_sub (relevanceScore b) (relevanceScore a))"
  define S where "S = {r :: SearchResult. \<exists>x. relevanceScore r = Num x}"
  have sub: "set results \<subseteq> S"
  proof
    fix r assume "r \<in> set results"
    with assms have "relevanceScore r \<noteq> NaN"
      by blast
    then show "r \<in> S"
      unfolding S_def by (cases "relevanceScore r") auto
  qed
  have total: "\<forall>a \<in> S. \<forall>b \<in> S. num_gt (f a b) 0 \<longrightarrow> \<not> num_gt (f b a) 0"
    by (auto simp: S_def f_def)
  have trans: "\<forall>a \<in> S. \<forall>b \<in> S. \<forall>c \<in> S.
                  \<not> num_gt (f a b) 0 \<longrightarrow> \<not> num_gt (f b c) 0 \<longrightarrow> \<not> num_gt (f a c) 0"
    by (auto simp: S_def f_def)
  have "sorted_wrt (\<lambda>a b. \<not> num_gt (f a b) 0) (arraySort f results)"
    by (rule sorted_arraySort [OF total trans sub])
  moreover have "\<exists>x y. relevanceScore a = Num x \<and> relevanceScore b = Num y \<and> y \<le> x"
    if "a \<in> set (arraySort f results)" "b \<in> set (arraySort f results)"
      "\<not> num_gt (f a b) 0" for a b
  proof -
    from that sub have "a \<in> S" "b \<in> S"
      by (auto simp: set_arraySort)
    then obtain x y where "relevanceScore a = Num x" "relevanceScore b = Num y"
      by (auto simp: S_def)
    with that(3) show ?thesis
      by (simp add: f_def)
  qed
  ultimately have
    "sorted_wrt (\<lambda>a b. \<exists>x y. relevanceScore a = Num x \<and> relevanceScore b = Num y \<and> y \<le> x)
       (arraySort f results)"
    by (rule sorted_wrt_mono_rel [rotated]) blast
  then show ?thesis
    by (simp add: sortResults_def f_def)
qed

lemma sorted_by_name:
  assumes total: "\<And>a b. 0 < cmp a b \<Longrightarrow> cmp b a \<le> 0"
    and trans: "\<And>a b c. cmp a b \<le> 0 \<Longrightarrow> cmp b c \<le> 0 \<Longrightarrow> cmp a c \<le> 0"
  shows "sorted_wrt (\<lambda>a b. cmp a b \<le> 0) (map fileName (sortResults cmp results Name))"
proof -
  define f where
    "f = (\<lambda>(a :: SearchResult) (b :: SearchResult). Num (real_of_int (cmp (fileName a) (fileName b))))"
  have gt: "num_gt (f a b) 0 \<longleftrightarrow> 0 < cmp (fileName a) (fileName b)" for a b
    by (simp add: f_def)
  have t1: "\<forall>a \<in> UNIV. \<forall>b \<in> UNIV. num_gt (f a b) 0 \<longrightarrow> \<not> num_gt (f b a) 0"
    unfolding gt using total by (metis not_less)
  have t2: "\<forall>a \<in> UNIV. \<forall>b \<in> UNIV. \<forall>c \<in> UNIV.
                  \<not> num_gt (f a b) 0 \<longrightarrow> \<not> num_gt (f b c) 0 \<longrightarrow> \<not> num_gt (f a c) 0"
    unfolding gt not_less using trans by blast
  have "sorted_wrt (\<lambda>a b. \<not> num_gt (f a b) 0) (arraySort f results)"
    by (rule sorted_arraySort [OF t1 t2]) simp
  then have "sorted_wrt (\<lambda>a b. cmp (fileName a) (fileName b) \<le> 0) (arraySort f results)"
    unfolding gt not_less .
  then show ?thesis
    by (simp add: sortResults_def sorted_wrt_map f_def)
qed

lemma mset_sortResults: "mset (sortResults cmp results sortBy') = mset results"
  by (cases sortBy') (simp_all add: sortResults_def mset_arraySort)

lemma length_sortResults: "length (sortResults cmp results sortBy') = length results"
  using mset_sortResults [of cmp results sortBy'] by (metis size_mset)

lemma caseFoldingCompare_total: "0 < caseFoldingCompare a b \<Longrightarrow> caseFoldingCompare b a \<le> 0"
  by (simp add: caseFoldingCompare_def split: if_splits)

lemma caseFoldingCompare_trans:
  "caseFoldingCompare a b \<le> 0 \<Longrightarrow> caseFoldingCompare b c \<le> 0 \<Longrightarrow> caseFoldingCompare a c \<le> 0"
  by (auto simp: caseFoldingCompare_def split: if_splits)

text \<open>
  C4, as the claim states it, fails for the key \<open>name\<close>: the comparator is \<open>localeCompare\<close>, the
  collation of the platform, not the comparison of the code units. With a collation that
  puts \<open>a\<close> before \<open>B\<close>, as the collations of the common locales do, the names come out as
  \<open>a\<close>, \<open>B\<close>, which decreases in the case-sensitive lexicographic order (\<open>B\<close> is code unit
  66, \<open>a\<close> is 97).
\<close>

theorem sortResults_name_counterexample:
  "map fileName (sortResults caseFoldingCompare exampleResults Name) = [''a'', ''B'']
   \<and> \<not> sorted [''a'', ''B'']"
proof -
  have "map fileName (sortResults caseFoldingCompare exampleResults Name) = [''a'', ''B'']"
    by code_simp
  moreover have "\<not> sorted [''a'', ''B'']"
    by simp
  ultimately show ?thesis by blast
qed

text \<open>
  C4 (amended): for every candidate list whose scores are numbers, sorting with the key
  \<open>relevance\<close> yields non-increasing scores; sorting with the key \<open>name\<close> yields names that do
  not decrease in the order of \<open>localeCompare\<close> (the collation of the platform, which is not
  the case-sensitive lexicographic order), provided \<open>localeCompare\<close> is a consistent
  comparator; every other key leaves the order unchanged. The result always holds the
  candidates of the input, each as often as the input.
\<close>

theorem sortResults_sorted:
  "((\<forall>r \<in> set results. relevanceScore r \<noteq> NaN) \<longrightarrow>
      sorted_wrt (\<lambda>a b. \<exists>x y. relevanceScore a = Num x \<and> relevanceScore b = Num y \<and> y \<le> x)
        (sortResults localeCompare results Relevance))
   \<and> ((\<forall>a b. 0 < localeCompare a b \<longrightarrow> localeCompare b a \<le> 0)
        \<and> (\<forall>a b c. localeCompare a b \<le> 0 \<and> localeCompare b c \<le> 0
              \<longrightarrow> localeCompare a c \<le> 0) \<longrightarrow>
      sorted_wrt (\<lambda>a b. localeCompare a b \<le> 0)
        (map fileName (sortResults localeCompare results Name)))
   \<and> (sortBy' \<noteq> Relevance \<and> sortBy' \<noteq> Name \<longrightarrow>
        sortResults localeCompare results sortBy' = results)
   \<and> mset (sortResults localeCompare results sortBy') = mset results"
proof (intro conjI impI)
  assume "\<forall>r \<in> set results. relevanceScore r \<noteq> NaN"
  then show "sorted_wrt
      (\<lambda>a b. \<exists>x y. relevanceScore a = Num x \<and> relevanceScore b = Num y \<and> y \<le> x)
      (sortResults localeCompare results Relevance)"
    by (rule sorted_by_relevance)
next
  assume "(\<forall>a b. 0 < localeCompare a b \<longrightarrow> localeCompare b a \<le> 0)
        \<and> (\<forall>a b c. localeCompare a b \<le> 0 \<and> localeCompare b c \<le> 0
              \<longrightarrow> localeCompare a c \<le> 0)"
  then show "sorted_wrt (\<lambda>a b. localeCompare a b \<le> 0)
      (map fileName (sortResults localeCompare results Name))"
    by (intro sorted_by_name) blast+
next
  assume "sortBy' \<noteq> Relevance \<and> sortBy' \<noteq> Name"
  then show "sortResults localeCompare results sortBy' = results"
    by (cases sortBy') (simp_all add: sortResults_def)
next
  show "mset (sortResults localeCompare results sortBy') = mset results"
    by (rule mset_sortResults)
qed

theorem sortResults_sorted_witness:
  "relevanceScore (namedResult ''B'' (1 / 2)) = Num (1 / 2)
   \<and> relevanceScore (namedResult ''a'' (7 / 10)) = Num (7 / 10)
   \<and> caseFoldingCompare ''a'' ''B'' = - 1
   \<and> Date \<noteq> Relevance \<and> Date \<noteq> Name
   \<and> sorted_wrt (\<lambda>a b. \<exists>x y. relevanceScore a = Num x \<and> relevanceScore b = Num y \<and> y \<le> x)
        (sortResults caseFoldingCompare exampleResults Relevance)
   \<and> sorted_wrt (\<lambda>a b. caseFoldingCompare a b \<le> 0)
        (map fileName (sortResults caseFoldingCompare exampleResults Name))
   \<and> sortResults caseFoldingCompare exampleResults Date = exampleResults"
proof -
  have 0: "relevanceScore (namedResult ''B'' (1 / 2)) = Num (1 / 2)"
    "relevanceScore (namedResult ''a'' (7 / 10)) = Num (7 / 10)"
    by (simp_all add: namedResult_def)
  have c: "caseFoldingCompare ''a'' ''B'' = - 1"
    by code_simp
  have 1: "\<forall>r \<in> set exampleResults. relevanceScore r \<noteq> NaN"
    by (simp add: exampleResults_def namedResult_def)
  have 2: "\<forall>a b. 0 < caseFoldingCompare a b \<longrightarrow> caseFoldingCompare b a \<le> 0"
    using caseFoldingCompare_total by blast
  have 3: "\<forall>a b c. caseFoldingCompare a b \<le> 0 \<and> caseFoldingCompare b c \<le> 0
         \<longrightarrow> caseFoldingCompare a c \<le> 0"
    using caseFoldingCompare_trans by blast
  note inst = sortResults_sorted [of exampleResults caseFoldingCompare Date]
  from inst [THEN conjunct1] 1 have 4:
    "sorted_wrt (\<lambda>a b. \<exists>x y. relevanceScore a = Num x \<and> relevanceScore b = Num y \<and> y \<le> x)
        (sortResults caseFoldingCompare exampleResults Relevance)"
    by (rule mp)
  from 2 3 have 23:
    "(\<forall>a b. 0 < caseFoldingCompare a b \<longrightarrow> caseFoldingCompare b a \<le> 0)
     \<and> (\<forall>a b c. caseFoldingCompare a b \<le> 0 \<and> caseFoldingCompare b c \<le> 0
           \<longrightarrow> caseFoldingCompare a c \<le> 0)"
    by (rule conjI)
  from inst [THEN conjunct2, THEN conjunct1] 23 have 5:
    "sorted_wrt (\<lambda>a b. caseFoldingCompare a b \<le> 0)
        (map fileName (sortResults caseFoldingCompare exampleResults Name))"
    by (rule mp)
  from inst [THEN conjunct2, THEN conjunct2, THEN conjunct1] have 6:
    "sortResults caseFoldingCompare exampleResults Date = exampleResults"
    by simp
  show ?thesis
    by (intro conjI 0 c 4 5 6) simp_all
qed

section \<open>Threshold and truncation\<close>

lemma length_slice:
  "length (slice xs n) = (if n < 0 then nat (int (length xs) + n) else min (nat n) (length xs))"
  by (auto simp: slice_def)

lemma length_slice_mono:
  "length xs \<le> length ys \<Longrightarrow> length (slice xs n) \<le> length (slice ys n)"
  by (auto simp: length_slice)

lemma length_filter_mono:
  "(\<And>x. x \<in> set xs \<Longrightarrow> P x \<Longrightarrow> Q x) \<Longrightarrow> length (filter P xs) \<le> length (filter Q xs)"
  by (induction xs) auto

lemma num_ge_mono: "t1 \<le> t2 \<Longrightarrow> num_ge s t2 \<Longrightarrow> num_ge s t1"
  by (cases s) auto

lemma num_ge_not_lt: "s \<noteq> NaN \<Longrightarrow> num_ge s t \<longleftrightarrow> \<not> num_lt s t"
  by (cases s) auto

lemma collectResults_threshold:
  "collectResults regExp query files (options\<lparr>threshold := t\<rparr>) = collectResults regExp query files options"
  by (simp add: collectResults_def)

lemma search_value:
  assumes "collectResults regExp query files options = Some candidates"
  shows "search regExp cmp query files (options\<lparr>threshold := Some t\<rparr>) =
           Some (slice
                   (sortResults cmp
                      (filter (\<lambda>result. num_ge (relevanceScore result) t) candidates)
                      (optionOr (sortBy options) Relevance))
                   (optionOr (maxResults options) 50))"
  using assms by (simp add: search_def collectResults_threshold optionOr_def)

text \<open>
  C9: with the query, the documents and the other options fixed, a search returns for every
  threshold, a candidate is dropped exactly when its score is strictly below the threshold,
  and for thresholds \<open>t1 \<le> t2\<close> the search with \<open>t2\<close> returns at most as many results as the
  search with \<open>t1\<close>.
\<close>

theorem search_threshold_monotone:
  assumes "t1 \<le> t2"
  shows "\<exists>candidates r1 r2.
           collectResults regExp query files options = Some candidates
           \<and> (\<forall>t. search regExp cmp query files (options\<lparr>threshold := Some t\<rparr>) =
                  Some (slice
                          (sortResults cmp
                             (filter (\<lambda>result. \<not> num_lt (relevanceScore result) t) candidates)
                             (optionOr (sortBy options) Relevance))
                          (optionOr (maxResults options) 50)))
           \<and> search regExp cmp query files (options\<lparr>threshold := Some t1\<rparr>) = Some r1
           \<and> search regExp cmp query files (options\<lparr>threshold := Some t2\<rparr>) = Some r2
           \<and> length r2 \<le> length r1"
proof -
  obtain candidates where c: "collectResults regExp query files options = Some candidates"
    and num: "\<forall>r \<in> set candidates. relevanceScore r \<noteq> NaN"
    using collectResults_returns by blast
  have eq: "filter (\<lambda>result. num_ge (relevanceScore result) t) candidates
              = filter (\<lambda>result. \<not> num_lt (relevanceScore result) t) candidates" for t
    using num by (intro filter_cong) (auto simp: num_ge_not_lt)
  have "length (filter (\<lambda>result. num_ge (relevanceScore result) t2) candidates)
          \<le> length (filter (\<lambda>result. num_ge (relevanceScore result) t1) candidates)"
    using assms by (intro length_filter_mono) (rule num_ge_mono)
  then have "length (slice
                   (sortResults cmp
                      (filter (\<lambda>result. num_ge (relevanceScore result) t2) candidates)
                      (optionOr (sortBy options) Relevance))
                   (optionOr (maxResults options) 50))
           \<le> length (slice
                   (sortResults cmp
                      (filter (\<lambda>result. num_ge (relevanceScore result) t1) candidates)
                      (optionOr (sortBy options) Relevance))
                   (optionOr (maxResults options) 50))"
    by (intro length_slice_mono) (simp add: length_sortResults)
  with c eq show ?thesis
    by (simp add: search_value [OF c])
qed

theorem search_threshold_monotone_witness:
  "(1 / 2 :: real) \<le> 19 / 20
   \<and> search dotRegExp caseFoldingCompare ''revenue'' [titledFile]
         (defaultOptions\<lparr>threshold := Some (1 / 2)\<rparr>) =
       Some [\<lparr>fileId = ''f2'', fileName = ''report.pdf'', content = ''revenue grows'',
               relevanceScore = Num (19 / 20), matchType = Text,
               context' = ''revenue grows''\<rparr>,
             \<lparr>fileId = ''f2'', fileName = ''report.pdf'', content = ''Revenue'',
               relevanceScore = Num (9 / 10), matchType = Metadata,
               context' = ''Title: Revenue''\<rparr>]
   \<and> search dotRegExp caseFoldingCompare ''revenue'' [titledFile]
         (defaultOptions\<lparr>threshold := Some (19 / 20)\<rparr>) =
       Some [\<lparr>fileId = ''f2'', fileName = ''report.pdf'', content = ''revenue grows'',
               relevanceScore = Num (19 / 20), matchType = Text,
               context' = ''revenue grows''\<rparr>]"
proof -
  have le: "(1 / 2 :: real) \<le> 19 / 20"
    by simp
  from search_threshold_monotone [OF le, of dotRegExp "''revenue''" "[titledFile]" defaultOptions
      caseFoldingCompare]
  obtain candidates where
    c: "collectResults dotRegExp ''revenue'' [titledFile] defaultOptions = Some candidates"
    and s: "\<And>t. search dotRegExp caseFoldingCompare ''revenue'' [titledFile]
                  (defaultOptions\<lparr>threshold := Some t\<rparr>) =
                Some (slice
                        (sortResults caseFoldingCompare
                           (filter (\<lambda>result. \<not> num_lt (relevanceScore result) t) candidates)
                           (optionOr (sortBy defaultOptions) Relevance))
                        (optionOr (maxResults defaultOptions) 50))"
    by blast
  from c have candidates: "candidates =
      [\<lparr>fileId = ''f2'', fileName = ''report.pdf'', content = ''Revenue'',
         relevanceScore = Num (9 / 10), matchType = Metadata, context' = ''Title: Revenue''\<rparr>,
       \<lparr>fileId = ''f2'', fileName = ''report.pdf'', content = ''revenue grows'',
         relevanceScore = Num (19 / 20), matchType = Text, context' = ''revenue grows''\<rparr>]"
    by (simp add: revenue_summary_candidates)
  show ?thesis
    unfolding s candidates
    by (simp add: le sortResults_def arraySort_def slice_def optionOr_def defaultOptions_def)
qed

section \<open>The empty query\<close>

lemma searchInKeywords_loop_empty_query:
  "map content (searchInKeywords_loop [] fid fn ks) = ks"
  by (induction ks) (simp_all add: includes_empty_pattern)

lemma searchInTable_row_Nil: "searchInTable_row q fid fn i j [] = []"
  by simp

lemma searchInTable_rows_empty:
  "\<forall>row \<in> set rs. row = [] \<Longrightarrow> searchInTable_rows q fid fn i rs = []"
  by (induction rs arbitrary: i) auto

lemma textMatcher_empty_query: "textMatcher regExp [] b f = Some []"
  by (simp add: textMatcher_def searchInText_empty_query)

lemma summaryMatcher_empty_query: "summaryMatcher regExp [] f = Some []"
  by (simp add: summaryMatcher_def searchInText_empty_query split: option.splits)

lemma ocrMatcher_empty_query: "ocrMatcher regExp [] b f = Some []"
proof -
  have "appendAll (map (\<lambda>image'. case ocrText image' of
                      None \<Rightarrow> Some []
                    | Some t \<Rightarrow> if t \<noteq> [] then searchInText regExp [] t (id' f) (name f) Ocr
                                else Some []) (images (extractedContent f))) = Some []"
    by (rule appendAll_empty) (auto simp: searchInText_empty_query split: option.splits)
  then show ?thesis
    by (simp add: ocrMatcher_def)
qed

lemma fileCandidates_empty_query:
  assumes "title (metadata (extractedContent f)) \<in> {None, Some []}"
    and "author (metadata (extractedContent f)) \<in> {None, Some []}"
    and "\<forall>t \<in> set (tables (extractedContent f)). headers t = [] \<and> (\<forall>row \<in> set (rows t). row = [])"
    and "keywords' (extractedContent f) \<in> {None, Some []}"
  shows "fileCandidates regExp [] iT iO iM f = Some []"
proof -
  note t = textMatcher_empty_query [of regExp iT f] and ocr = ocrMatcher_empty_query [of regExp iO f]
  have m: "metadataMatcher [] iM f = []"
    using assms(1,2) by (auto simp: metadataMatcher_def searchInMetadata_def)
  have "searchInTable [] t (id' f) (name f) = []" if "t \<in> set (tables (extractedContent f))" for t
    using assms(3) that by (simp add: searchInTable_def searchInTable_rows_empty)
  then have tb: "tableMatcher [] f = []"
    by (simp add: tableMatcher_def)
  note s = summaryMatcher_empty_query [of regExp f]
  have k: "keywordMatcher [] f = []"
    using assms(4) by (auto simp: keywordMatcher_def searchInKeywords_def)
  show ?thesis
    by (simp add: fileCandidates_def t ocr m tb s k)
qed

lemma sortResults_Nil: "sortResults cmp [] sortBy' = []"
  by (cases sortBy') (simp_all add: sortResults_def arraySort_def)

text \<open>
  C1, as the claim states it, fails: the keyword matcher (like the metadata matcher and the
  table matcher) asks whether the keyword includes the query, and every string includes the
  empty string. For a file with one keyword the search with the empty query returns the
  candidate of that keyword.
\<close>

theorem search_empty_query_counterexample:
  "search dotRegExp caseFoldingCompare [] [keywordFile] defaultOptions =
     Some [\<lparr>fileId = ''f3'', fileName = ''notes.txt'', content = ''budget'',
             relevanceScore = Num (4 / 5), matchType = Text,
             context' = ''Keyword: budget''\<rparr>]"
  by code_simp

lemma searchInTable_headers_empty_query:
  "map content (searchInTable_headers [] fid fn hs) = hs"
  by (induction hs) (simp_all add: includes_empty_pattern)

lemma searchInTable_row_empty_query:
  "map content (searchInTable_row [] fid fn i j cells) = cells"
  by (induction cells arbitrary: j) (simp_all add: includes_empty_pattern)

lemma searchInTable_rows_empty_query:
  "map content (searchInTable_rows [] fid fn i rs) = concat rs"
  by (induction rs arbitrary: i) (simp_all add: searchInTable_row_empty_query)

lemma searchInMetadata_empty_query:
  "map content (searchInMetadata [] f) =
     (case title (metadata (extractedContent f)) of
        None \<Rightarrow> [] | Some t \<Rightarrow> if t \<noteq> [] then [t] else [])
     @ (case author (metadata (extractedContent f)) of
          None \<Rightarrow> [] | Some a \<Rightarrow> if a \<noteq> [] then [a] else [])"
  by (simp add: searchInMetadata_def Let_def includes_empty_pattern split: option.splits)

text \<open>
  C1 (amended): for the empty query the text matcher, the OCR matcher and the summary matcher
  return no candidate, whatever the documents hold, while the metadata matcher returns a
  candidate for every title and author that is not empty, the table matcher one for every
  header and every cell of the table, and the keyword matcher one for every keyword (the
  empty query is included in every string). The search with the empty query returns the
  empty sequence, for every options value, on the document collections in which no document
  has a title or an author that is not empty, a table with a header or a cell, or a keyword.
\<close>

theorem search_empty_query:
  "textMatcher regExp [] includeText' f = Some []
   \<and> ocrMatcher regExp [] includeOCR' f = Some []
   \<and> summaryMatcher regExp [] f = Some []
   \<and> map content (searchInMetadata [] f) =
       (case title (metadata (extractedContent f)) of
          None \<Rightarrow> [] | Some t \<Rightarrow> if t \<noteq> [] then [t] else [])
       @ (case author (metadata (extractedContent f)) of
            None \<Rightarrow> [] | Some a \<Rightarrow> if a \<noteq> [] then [a] else [])
   \<and> map content (searchInTable [] table fileId' fileName') = headers table @ concat (rows table)
   \<and> map content (searchInKeywords [] ks fileId' fileName') = ks
   \<and> ((\<forall>g \<in> set files.
          title (metadata (extractedContent g)) \<in> {None, Some []}
          \<and> author (metadata (extractedContent g)) \<in> {None, Some []}
          \<and> (\<forall>t \<in> set (tables (extractedContent g)).
                 headers t = [] \<and> (\<forall>row \<in> set (rows t). row = []))
          \<and> keywords' (extractedContent g) \<in> {None, Some []})
        \<longrightarrow> search regExp localeCompare [] files options = Some [])"
proof (intro conjI impI)
  show "textMatcher regExp [] includeText' f = Some []"
    by (rule textMatcher_empty_query)
  show "ocrMatcher regExp [] includeOCR' f = Some []"
    by (rule ocrMatcher_empty_query)
  show "summaryMatcher regExp [] f = Some []"
    by (rule summaryMatcher_empty_query)
  show "map content (searchInMetadata [] f) =
       (case title (metadata (extractedContent f)) of
          None \<Rightarrow> [] | Some t \<Rightarrow> if t \<noteq> [] then [t] else [])
       @ (case author (metadata (extractedContent f)) of
            None \<Rightarrow> [] | Some a \<Rightarrow> if a \<noteq> [] then [a] else [])"
    by (rule searchInMetadata_empty_query)
  show "map content (searchInTable [] table fileId' fileName')
          = headers table @ concat (rows table)"
    by (simp add: searchInTable_def searchInTable_headers_empty_query
        searchInTable_rows_empty_query)
  show "map content (searchInKeywords [] ks fileId' fileName') = ks"
    by (simp add: searchInKeywords_def searchInKeywords_loop_empty_query)
next
  assume a: "\<forall>g \<in> set files.
          title (metadata (extractedContent g)) \<in> {None, Some []}
          \<and> author (metadata (extractedContent g)) \<in> {None, Some []}
          \<and> (\<forall>t \<in> set (tables (extractedContent g)).
                 headers t = [] \<and> (\<forall>row \<in> set (rows t). row = []))
          \<and> keywords' (extractedContent g) \<in> {None, Some []}"
  have "collectResults regExp [] files options = Some []"
    unfolding collectResults_candidates
    by (rule appendAll_empty) (use a in \<open>auto intro!: fileCandidates_empty_query\<close>)
  then show "search regExp localeCompare [] files options = Some []"
    by (simp add: search_def sortResults_Nil slice_def Let_def)
qed

theorem search_empty_query_witness:
  "title (metadata (extractedContent (revenueFile ''f1'' ''report.pdf''))) = None
   \<and> author (metadata (extractedContent (revenueFile ''f1'' ''report.pdf''))) = None
   \<and> tables (extractedContent (revenueFile ''f1'' ''report.pdf'')) = []
   \<and> keywords' (extractedContent (revenueFile ''f1'' ''report.pdf'')) = None
   \<and> search dotRegExp caseFoldingCompare [] [revenueFile ''f1'' ''report.pdf''] defaultOptions
       = Some []
   \<and> map content (searchInMetadata [] titledFile) = [''Revenue'']
   \<and> map content (searchInTable [] nameAmountTable ''f1'' ''people.xlsx'')
       = [''Name'', ''Amount'', ''Alice'', ''100'', ''Bob'', ''200'']
   \<and> map content (searchInKeywords [] [''budget''] ''f1'' ''people.xlsx'') = [''budget'']"
proof -
  have f: "title (metadata (extractedContent (revenueFile ''f1'' ''report.pdf''))) = None"
    "author (metadata (extractedContent (revenueFile ''f1'' ''report.pdf''))) = None"
    "tables (extractedContent (revenueFile ''f1'' ''report.pdf'')) = []"
    "keywords' (extractedContent (revenueFile ''f1'' ''report.pdf'')) = None"
    by (simp_all add: revenueFile_def emptyContent_def)
  then have h: "\<forall>g \<in> set [revenueFile ''f1'' ''report.pdf''].
      title (metadata (extractedContent g)) \<in> {None, Some []}
      \<and> author (metadata (extractedContent g)) \<in> {None, Some []}
      \<and> (\<forall>t \<in> set (tables (extractedContent g)).
             headers t = [] \<and> (\<forall>row \<in> set (rows t). row = []))
      \<and> keywords' (extractedContent g) \<in> {None, Some []}"
    by simp
  note inst = search_empty_query [of dotRegExp True titledFile True nameAmountTable
      "''f1''" "''people.xlsx''" "[''budget'']" "[revenueFile ''f1'' ''report.pdf'']"
      caseFoldingCompare defaultOptions]
  from inst have
    "(\<forall>g \<in> set [revenueFile ''f1'' ''report.pdf''].
        title (metadata (extractedContent g)) \<in> {None, Some []}
        \<and> author (metadata (extractedContent g)) \<in> {None, Some []}
        \<and> (\<forall>t \<in> set (tables (extractedContent g)).
               headers t = [] \<and> (\<forall>row \<in> set (rows t). row = []))
        \<and> keywords' (extractedContent g) \<in> {None, Some []})
     \<longrightarrow> search dotRegExp caseFoldingCompare [] [revenueFile ''f1'' ''report.pdf'']
           defaultOptions = Some []"
    by (elim conjE)
  from this h have 1:
    "search dotRegExp caseFoldingCompare [] [revenueFile ''f1'' ''report.pdf''] defaultOptions
       = Some []"
    by (rule mp)
  from inst have "map content (searchInMetadata [] titledFile) =
       (case title (metadata (extractedContent titledFile)) of
          None \<Rightarrow> [] | Some t \<Rightarrow> if t \<noteq> [] then [t] else [])
       @ (case author (metadata (extractedContent titledFile)) of
            None \<Rightarrow> [] | Some a \<Rightarrow> if a \<noteq> [] then [a] else [])"
    by (elim conjE)
  then have 2: "map content (searchInMetadata [] titledFile) = [''Revenue'']"
    by (simp add: titledFile_def emptyContent_def)
  from inst have "map content (searchInTable [] nameAmountTable ''f1'' ''people.xlsx'')
       = headers nameAmountTable @ concat (rows nameAmountTable)"
    by (elim conjE)
  then have 3: "map content (searchInTable [] nameAmountTable ''f1'' ''people.xlsx'')
       = [''Name'', ''Amount'', ''Alice'', ''100'', ''Bob'', ''200'']"
    by (simp add: nameAmountTable_def)
  from inst have 4:
    "map content (searchInKeywords [] [''budget''] ''f1'' ''people.xlsx'') = [''budget'']"
    by (elim conjE)
  show ?thesis
    by (intro conjI f 1 2 3 4)
qed

section \<open>Two searches\<close>

lemma searchInKeywords_loop_no_match:
  "\<forall>k \<in> set ks. \<not> includes' (toLowerCase k) q \<Longrightarrow> searchInKeywords_loop q fid fn ks = []"
  by (induction ks) auto

lemma bob_terms: "preprocessQuery ''Bob'' = [''bob'']"
  by code_simp

lemma bob_lower: "toLowerCase ''Bob'' = ''bob''" "toLowerCase ''bob'' = ''bob''"
  by code_simp+

lemma bob_table:
  "searchInTable ''Bob'' nameAmountTable fid fn =
     [\<lparr>fileId = fid, fileName = fn, content = ''Bob'', relevanceScore = Num (6 / 10),
       matchType = Text, context' = ''Table cell (Row 2, Col 1): Bob''\<rparr>]"
  by code_simp

lemma arraySort_single: "arraySort f [x] = [x]"
  by (simp add: arraySort_def)

text \<open>
  C7: for a document with the one table of headers \<open>Name\<close>, \<open>Amount\<close> and rows \<open>Alice\<close>,
  \<open>100\<close> and \<open>Bob\<close>, \<open>200\<close>, and with no other content that holds \<open>bob\<close> in any case (text,
  OCR texts, title, author, summary, keywords), the search for \<open>Bob\<close> with the default options
  returns exactly one candidate: match type text, score 0.6, context
  \<open>Table cell (Row 2, Col 1): Bob\<close>.
\<close>

theorem search_table_cell:
  assumes "tables (extractedContent file) = [nameAmountTable]"
    and "\<not> includes' (toLowerCase (text' (extractedContent file))) ''bob''"
    and "\<forall>i \<in> set (images (extractedContent file)).
           \<forall>t. ocrText i = Some t \<longrightarrow> \<not> includes' (toLowerCase t) ''bob''"
    and "\<forall>t. title (metadata (extractedContent file)) = Some t
           \<longrightarrow> \<not> includes' (toLowerCase t) ''bob''"
    and "\<forall>a. author (metadata (extractedContent file)) = Some a
           \<longrightarrow> \<not> includes' (toLowerCase a) ''bob''"
    and "\<forall>s. summary (extractedContent file) = Some s \<longrightarrow> \<not> includes' (toLowerCase s) ''bob''"
    and "\<forall>ks. keywords' (extractedContent file) = Some ks
           \<longrightarrow> (\<forall>k \<in> set ks. \<not> includes' (toLowerCase k) ''bob'')"
  shows "search regExp localeCompare ''Bob'' [file] defaultOptions =
           Some [\<lparr>fileId = id' file, fileName = name file, content = ''Bob'',
                   relevanceScore = Num (6 / 10), matchType = Text,
                   context' = ''Table cell (Row 2, Col 1): Bob''\<rparr>]"
proof -
  have no_match: "searchInText regExp ''Bob'' t fid fn mt = Some []"
    if "\<not> includes' (toLowerCase t) ''bob''" for t fid fn mt
    using that by (intro searchInText_no_match) (simp add: bob_terms bob_lower)
  have t: "textMatcher regExp ''Bob'' True file = Some []"
    using assms(2) by (simp add: textMatcher_def no_match)
  have "appendAll (map (\<lambda>image'. case ocrText image' of
                      None \<Rightarrow> Some []
                    | Some t \<Rightarrow>
                        if t \<noteq> [] then searchInText regExp ''Bob'' t (id' file) (name file) Ocr
                        else Some [])
                (images (extractedContent file))) = Some []"
    using assms(3) by (intro appendAll_empty) (auto simp: no_match split: option.splits)
  then have ocr: "ocrMatcher regExp ''Bob'' True file = Some []"
    by (simp add: ocrMatcher_def)
  have m: "metadataMatcher ''Bob'' True file = []"
    using assms(4,5)
    by (auto simp: metadataMatcher_def searchInMetadata_def Let_def bob_lower
        split: option.splits)
  have tb: "tableMatcher ''Bob'' file =
              [\<lparr>fileId = id' file, fileName = name file, content = ''Bob'',
                relevanceScore = Num (6 / 10), matchType = Text,
                context' = ''Table cell (Row 2, Col 1): Bob''\<rparr>]"
    using assms(1) by (simp add: tableMatcher_def bob_table)
  have s: "summaryMatcher regExp ''Bob'' file = Some []"
    using assms(6) by (auto simp: summaryMatcher_def no_match split: option.splits)
  have k: "keywordMatcher ''Bob'' file = []"
    using assms(7)
    by (auto simp: keywordMatcher_def searchInKeywords_def bob_lower
        searchInKeywords_loop_no_match split: option.splits)
  have "collectResults regExp ''Bob'' [file] defaultOptions =
          Some [\<lparr>fileId = id' file, fileName = name file, content = ''Bob'',
                  relevanceScore = Num (6 / 10), matchType = Text,
                  context' = ''Table cell (Row 2, Col 1): Bob''\<rparr>]"
    by (simp add: collectResults_candidates fileCandidates_def optionOr_def defaultOptions_def
        t ocr m tb s k)
  then show ?thesis
    by (simp add: search_def optionOr_def defaultOptions_def sortResults_def arraySort_single
        slice_def)
qed

theorem search_table_cell_witness:
  "tables (extractedContent tableFile) = [nameAmountTable]
   \<and> \<not> includes' (toLowerCase (text' (extractedContent tableFile))) ''bob''
   \<and> images (extractedContent tableFile) = []
   \<and> title (metadata (extractedContent tableFile)) = None
   \<and> author (metadata (extractedContent tableFile)) = None
   \<and> summary (extractedContent tableFile) = None
   \<and> keywords' (extractedContent tableFile) = None
   \<and> search dotRegExp caseFoldingCompare ''Bob'' [tableFile] defaultOptions =
       Some [\<lparr>fileId = ''f1'', fileName = ''people.xlsx'', content = ''Bob'',
               relevanceScore = Num (6 / 10), matchType = Text,
               context' = ''Table cell (Row 2, Col 1): Bob''\<rparr>]"
proof -
  have 1: "tables (extractedContent tableFile) = [nameAmountTable]"
    and 3: "images (extractedContent tableFile) = []"
    and 4: "title (metadata (extractedContent tableFile)) = None"
    and 5: "author (metadata (extractedContent tableFile)) = None"
    and 6: "summary (extractedContent tableFile) = None"
    and 7: "keywords' (extractedContent tableFile) = None"
    by (simp_all add: tableFile_def emptyContent_def)
  have 2: "\<not> includes' (toLowerCase (text' (extractedContent tableFile))) ''bob''"
    by code_simp
  have "search dotRegExp caseFoldingCompare ''Bob'' [tableFile] defaultOptions =
       Some [\<lparr>fileId = id' tableFile, fileName = name tableFile, content = ''Bob'',
               relevanceScore = Num (6 / 10), matchType = Text,
               context' = ''Table cell (Row 2, Col 1): Bob''\<rparr>]"
    by (rule search_table_cell [OF 1 2]) (simp_all add: 3 4 5 6 7)
  then have "search dotRegExp caseFoldingCompare ''Bob'' [tableFile] defaultOptions =
       Some [\<lparr>fileId = ''f1'', fileName = ''people.xlsx'', content = ''Bob'',
               relevanceScore = Num (6 / 10), matchType = Text,
               context' = ''Table cell (Row 2, Col 1): Bob''\<rparr>]"
    by (simp add: tableFile_def)
  with 1 2 3 4 5 6 7 show ?thesis
    by (intro conjI)
qed

text \<open>
  C2, as the claim states it, fails: the text is shorter than the context window, so both
  occurrences of \<open>revenue\<close> have the whole text as their context and as their content, and
  \<open>deduplicateResults\<close> keeps one result per pair of file id and content. The search returns
  one candidate, not two.
\<close>

theorem search_revenue_counterexample:
  "search dotRegExp caseFoldingCompare ''revenue'' [revenueFile ''f1'' ''report.pdf''] defaultOptions =
     Some [\<lparr>fileId = ''f1'', fileName = ''report.pdf'', content = revenueText,
             relevanceScore = Num (298 / 305), matchType = Text, context' = revenueText\<rparr>]"
  by code_simp

text \<open>
  C2 (amended): for a document whose full text is \<open>The quarterly revenue report shows revenue
  growth in Q1 2023.\<close> and that has no other content, the loop of the text matcher pushes one
  result for each of the two occurrences of \<open>revenue\<close>, both with the whole text as content,
  and the search for \<open>revenue\<close> with the default options returns exactly one candidate, the
  first of the two: match type text, score
  \<open>min(1, 0.5 + 0.3 + 0.1 + (1 - 14/61) * 0.1) = 298/305\<close>, which is at least 0.9.
\<close>

theorem search_revenue_single:
  "searchInText_terms regExp revenueText (toLowerCase revenueText) fileId' fileName' Text
       (preprocessQuery ''revenue'') [] =
     Some [\<lparr>fileId = fileId', fileName = fileName', content = revenueText,
             relevanceScore = Num (298 / 305), matchType = Text, context' = revenueText\<rparr>,
           \<lparr>fileId = fileId', fileName = fileName', content = revenueText,
             relevanceScore = Num (298 / 305), matchType = Text, context' = revenueText\<rparr>]
   \<and> search regExp localeCompare ''revenue'' [revenueFile fileId' fileName'] defaultOptions =
     Some [\<lparr>fileId = fileId', fileName = fileName', content = revenueText,
             relevanceScore = Num (298 / 305), matchType = Text, context' = revenueText\<rparr>]
   \<and> num_ge (Num (298 / 305)) (9 / 10)"
proof (intro conjI)
  show "searchInText_terms regExp revenueText (toLowerCase revenueText) fileId' fileName' Text
       (preprocessQuery ''revenue'') [] =
     Some [\<lparr>fileId = fileId', fileName = fileName', content = revenueText,
             relevanceScore = Num (298 / 305), matchType = Text, context' = revenueText\<rparr>,
           \<lparr>fileId = fileId', fileName = fileName', content = revenueText,
             relevanceScore = Num (298 / 305), matchType = Text, context' = revenueText\<rparr>]"
    by code_simp
  show "search regExp localeCompare ''revenue'' [revenueFile fileId' fileName'] defaultOptions =
     Some [\<lparr>fileId = fileId', fileName = fileName', content = revenueText,
             relevanceScore = Num (298 / 305), matchType = Text, context' = revenueText\<rparr>]"
    by code_simp
  show "num_ge (Num (298 / 305)) (9 / 10)"
    by simp
qed

theorem search_revenue_single_witness:
  "search dotRegExp caseFoldingCompare ''revenue'' [revenueFile ''f7'' ''q1.txt''] defaultOptions =
     Some [\<lparr>fileId = ''f7'', fileName = ''q1.txt'', content = revenueText,
             relevanceScore = Num (298 / 305), matchType = Text, context' = revenueText\<rparr>]"
  using search_revenue_single [of dotRegExp "''f7''" "''q1.txt''" caseFoldingCompare]
  by (elim conjE)

section \<open>The matchers without a switch\<close>

lemma searchInTable_headers_finds:
  "h \<in> set hs \<Longrightarrow> includes' (toLowerCase h) ql \<Longrightarrow>
     \<exists>r \<in> set (searchInTable_headers ql fid fn hs).
       fileId r = fid \<and> content r = h \<and> relevanceScore r = Num (7 / 10) \<and> matchType r = Text"
  by (induction hs) auto

lemma searchInTable_row_finds:
  "cell \<in> set cells \<Longrightarrow> includes' (toLowerCase cell) ql \<Longrightarrow>
     \<exists>r \<in> set (searchInTable_row ql fid fn i j cells).
       fileId r = fid \<and> content r = cell \<and> relevanceScore r = Num (6 / 10) \<and> matchType r = Text"
  by (induction cells arbitrary: j) auto

lemma searchInTable_rows_finds:
  "row \<in> set rs \<Longrightarrow> cell \<in> set row \<Longrightarrow> includes' (toLowerCase cell) ql \<Longrightarrow>
     \<exists>r \<in> set (searchInTable_rows ql fid fn i rs).
       fileId r = fid \<and> content r = cell \<and> relevanceScore r = Num (6 / 10) \<and> matchType r = Text"
proof (induction rs arbitrary: i)
  case Nil
  then show ?case by simp
next
  case (Cons x rs)
  show ?case
  proof (cases "row = x")
    case True
    with searchInTable_row_finds [OF Cons.prems(2,3), of fid fn i 0] show ?thesis
      by auto
  next
    case False
    with Cons.prems have "row \<in> set rs"
      by simp
    from Cons.IH [OF this Cons.prems(2,3), of "i + 1"] show ?thesis
      by auto
  qed
qed

lemma searchInKeywords_loop_finds:
  "k \<in> set ks \<Longrightarrow> includes' (toLowerCase k) ql \<Longrightarrow>
     \<exists>r \<in> set (searchInKeywords_loop ql fid fn ks).
       fileId r = fid \<and> content r = k \<and> relevanceScore r = Num (8 / 10) \<and> matchType r = Text"
  by (induction ks) auto

text \<open>The loop of the text matcher pushes a result for the first occurrence of the term, and
  all its results are results for the file and the match type given.\<close>

lemma searchInText_while_results:
  assumes "term \<noteq> []" and "regExpLiteral term"
  shows "\<exists>new. searchInText_while regExp text textLower term fid fn mt index results
                 = Some (results @ new)
               \<and> (\<forall>r \<in> set new. fileId r = fid \<and> matchType r = mt)
               \<and> (\<forall>i. indexOf textLower (toLowerCase term) index = Some i \<longrightarrow>
                     (\<exists>r \<in> set new. content r = extractContext text i (length term)))"
proof (induction "length textLower - index" arbitrary: index results rule: less_induct)
  case less
  show ?case
  proof (cases "indexOf textLower (toLowerCase term) index")
    case None
    then show ?thesis
      by (subst searchInText_while.simps) simp
  next
    case (Some i)
    from indexOf_bounds [OF Some] assms(1)
    have "length textLower - (i + length (toLowerCase term)) < length textLower - index"
      by (cases "term") auto
    note IH = less [OF this]
    obtain x where x:
      "calculateRelevanceScore regExp term text
         (extractContext text i (length (toLowerCase term))) = Some (Num x)"
      using calculateRelevanceScore_Num [OF assms] by blast
    let ?r = "\<lparr>fileId = fid, fileName = fn,
               content = extractContext text i (length (toLowerCase term)),
               relevanceScore = Num x, matchType = mt,
               context' = extractContext text i (length (toLowerCase term))\<rparr>"
    from IH [of "results @ [?r]"] obtain new where
      new: "searchInText_while regExp text textLower term fid fn mt
         (i + length (toLowerCase term)) (results @ [?r]) = Some ((results @ [?r]) @ new)"
      and props: "\<forall>r \<in> set new. fileId r = fid \<and> matchType r = mt"
      by blast
    have 1: "searchInText_while regExp text textLower term fid fn mt index results
            = Some (results @ (?r # new))"
      using Some x new by (subst searchInText_while.simps) (simp add: Let_def)
    have 2: "\<forall>r \<in> set (?r # new). fileId r = fid \<and> matchType r = mt"
      using props by simp
    have 3: "\<forall>j. indexOf textLower (toLowerCase term) index = Some j \<longrightarrow>
               (\<exists>r \<in> set (?r # new). content r = extractContext text j (length term))"
      using Some by simp
    show ?thesis
      by (rule exI [of _ "?r # new"]) (intro conjI 1 2 3)
  qed
qed

lemma searchInText_terms_results:
  assumes "\<forall>t \<in> set queryTerms. t \<noteq> [] \<and> regExpLiteral t"
  shows "\<exists>new. searchInText_terms regExp text textLower fid fn mt queryTerms results
                 = Some (results @ new)
               \<and> (\<forall>r \<in> set new. fileId r = fid \<and> matchType r = mt)
               \<and> (\<forall>t \<in> set queryTerms. \<forall>i. indexOf textLower (toLowerCase t) 0 = Some i \<longrightarrow>
                     (\<exists>r \<in> set new. content r = extractContext text i (length t)))"
  using assms
proof (induction queryTerms arbitrary: results)
  case Nil
  then show ?case by simp
next
  case (Cons t queryTerms)
  then have t: "t \<noteq> []" "regExpLiteral t"
    by simp_all
  from searchInText_while_results [OF t, of regExp "text" textLower fid fn mt 0 results]
  obtain new1 where
    1: "searchInText_while regExp text textLower t fid fn mt 0 results = Some (results @ new1)"
    and p1: "\<forall>r \<in> set new1. fileId r = fid \<and> matchType r = mt"
    and f1: "\<forall>i. indexOf textLower (toLowerCase t) 0 = Some i \<longrightarrow>
                (\<exists>r \<in> set new1. content r = extractContext text i (length t))"
    by blast
  from Cons.IH [of "results @ new1"] Cons.prems obtain new2 where
    2: "searchInText_terms regExp text textLower fid fn mt queryTerms (results @ new1)
          = Some ((results @ new1) @ new2)"
    and p2: "\<forall>r \<in> set new2. fileId r = fid \<and> matchType r = mt"
    and f2: "\<forall>u \<in> set queryTerms. \<forall>i. indexOf textLower (toLowerCase u) 0 = Some i \<longrightarrow>
                (\<exists>r \<in> set new2. content r = extractContext text i (length u))"
    by auto
  have "searchInText_terms regExp text textLower fid fn mt (t # queryTerms) results
          = Some (results @ (new1 @ new2))"
    using 1 2 by simp
  moreover have "\<forall>r \<in> set (new1 @ new2). fileId r = fid \<and> matchType r = mt"
    using p1 p2 by auto
  moreover have "\<forall>u \<in> set (t # queryTerms). \<forall>i.
      indexOf textLower (toLowerCase u) 0 = Some i \<longrightarrow>
        (\<exists>r \<in> set (new1 @ new2). content r = extractContext text i (length u))"
  proof (intro ballI allI impI)
    fix u i
    assume u: "u \<in> set (t # queryTerms)" "indexOf textLower (toLowerCase u) 0 = Some i"
    show "\<exists>r \<in> set (new1 @ new2). content r = extractContext text i (length u)"
    proof (cases "u = t")
      case True
      with f1 u(2) obtain r where "r \<in> set new1"
        "content r = extractContext text i (length u)"
        by blast
      then show ?thesis
        by auto
    next
      case False
      with u(1) have "u \<in> set queryTerms"
        by simp
      with f2 u(2) obtain r where "r \<in> set new2"
        "content r = extractContext text i (length u)"
        by blast
      then show ?thesis
        by auto
    qed
  qed
  ultimately show ?case
    by blast
qed

lemma deduplicateLoop_keeps:
  "r \<in> set rs \<Longrightarrow>
     fileId r @ ''-'' @ content r \<in> seen
     \<or> (\<exists>k \<in> set (deduplicateLoop seen rs).
           fileId k @ ''-'' @ content k = fileId r @ ''-'' @ content r)"
proof (induction rs arbitrary: seen)
  case Nil
  then show ?case by simp
next
  case (Cons x rs)
  show ?case
  proof (cases "r = x")
    case True
    then show ?thesis
      by (auto simp: Let_def)
  next
    case False
    with Cons.prems have "r \<in> set rs"
      by simp
    from Cons.IH [OF this, of seen]
      Cons.IH [OF this, of "insert (fileId x @ ''-'' @ content x) seen"]
    show ?thesis
      by (auto simp: Let_def)
  qed
qed

lemma searchInText_finds:
  assumes "t \<in> set (preprocessQuery query)"
    and "indexOf (toLowerCase text) (toLowerCase t) 0 = Some i"
  shows "\<exists>rs. searchInText regExp query text fid fn mt = Some rs
           \<and> (\<exists>r \<in> set rs. fileId r = fid \<and> content r = extractContext text i (length t)
                 \<and> matchType r = mt)"
proof -
  have "\<forall>t \<in> set (preprocessQuery query). t \<noteq> [] \<and> regExpLiteral t"
    using preprocessQuery_literal by blast
  from searchInText_terms_results [OF this, of regExp "text" "toLowerCase text" fid fn mt "[]"]
  obtain new where
    new: "searchInText_terms regExp text (toLowerCase text) fid fn mt (preprocessQuery query) []
            = Some new"
    and props: "\<forall>r \<in> set new. fileId r = fid \<and> matchType r = mt"
    and finds: "\<forall>t \<in> set (preprocessQuery query). \<forall>i.
        indexOf (toLowerCase text) (toLowerCase t) 0 = Some i \<longrightarrow>
          (\<exists>r \<in> set new. content r = extractContext text i (length t))"
    by auto
  from finds assms obtain r where r: "r \<in> set new"
    "content r = extractContext text i (length t)"
    by blast
  from deduplicateLoop_keeps [OF r(1), of "{}"] obtain k where
    k: "k \<in> set (deduplicateLoop {} new)"
    "fileId k @ ''-'' @ content k = fileId r @ ''-'' @ content r"
    by auto
  from k(1) deduplicateLoop_subset [of "{}" new] have "k \<in> set new"
    by blast
  with props r(1) have "fileId k = fid" "matchType k = mt" "fileId r = fid"
    by auto
  with k(2) r(2) have "content k = extractContext text i (length t)"
    by simp
  with k(1) \<open>fileId k = fid\<close> \<open>matchType k = mt\<close> new show ?thesis
    by (auto simp: searchInText_def deduplicateResults_def)
qed

lemma appendAll_member:
  "appendAll xs = Some b \<Longrightarrow> Some a \<in> set xs \<Longrightarrow> set a \<subseteq> set b"
proof (induction xs arbitrary: b)
  case Nil
  then show ?case by simp
next
  case (Cons x xs)
  then show ?case
    by (auto split: option.splits)
qed

lemma search_candidates:
  assumes "collectResults regExp query files options = Some candidates"
  shows "search regExp cmp query files options =
           Some (slice
                   (sortResults cmp
                      (filter (\<lambda>result. num_ge (relevanceScore result)
                                           (optionOr (threshold options) (1 / 10)))
                         candidates)
                      (optionOr (sortBy options) Relevance))
                   (optionOr (maxResults options) 50))"
  using assms by (simp add: search_def)

lemma tableMatcher_member:
  "t \<in> set (tables (extractedContent f)) \<Longrightarrow>
     r \<in> set (searchInTable_headers (toLowerCase query) (id' f) (name f) (headers t))
     \<or> r \<in> set (searchInTable_rows (toLowerCase query) (id' f) (name f) 0 (rows t)) \<Longrightarrow>
     r \<in> set (tableMatcher query f)"
  by (auto simp: tableMatcher_def searchInTable_def Let_def)

lemma keywordMatcher_member:
  "keywords' (extractedContent f) = Some ks \<Longrightarrow>
     r \<in> set (searchInKeywords_loop (toLowerCase query) (id' f) (name f) ks) \<Longrightarrow>
     r \<in> set (keywordMatcher query f)"
  by (simp add: keywordMatcher_def searchInKeywords_def)

lemma ungated_candidates:
  "fileCandidates regExp query False False False f =
     appendAll [Some (tableMatcher query f), summaryMatcher regExp query f,
                Some (keywordMatcher query f)]"
  by (cases "summaryMatcher regExp query f")
     (simp_all add: fileCandidates_def textMatcher_def ocrMatcher_def metadataMatcher_def)

text \<open>
  C10: no option gates the table matcher, the summary matcher and the keyword matcher. With
  \<open>includeText\<close>, \<open>includeOCR\<close> and \<open>includeMetadata\<close> all false, the candidates of a search are
  the outputs of these three matchers for every document, in this order, and the search
  returns them (after the threshold, the sort and the cap). The candidates hold a
  candidate for every table header (score 0.7) and table cell (score 0.6) that includes the
  query, for every keyword that includes it (score 0.8), and for the first occurrence of
  every query term in a summary.
\<close>

theorem search_ungated:
  assumes "includeText options = Some False" and "includeOCR options = Some False"
    and "includeMetadata options = Some False"
  shows "\<exists>candidates.
     collectResults regExp query files options = Some candidates
     \<and> appendAll
         (map (\<lambda>file.
                 appendAll
                   [Some (tableMatcher query file), summaryMatcher regExp query file,
                    Some (keywordMatcher query file)])
            files) = Some candidates
     \<and> search regExp localeCompare query files options =
         Some (slice
                 (sortResults localeCompare
                    (filter (\<lambda>result. num_ge (relevanceScore result)
                                         (optionOr (threshold options) (1 / 10)))
                       candidates)
                    (optionOr (sortBy options) Relevance))
                 (optionOr (maxResults options) 50))
     \<and> (\<forall>f \<in> set files.
          (\<forall>t \<in> set (tables (extractedContent f)).
             (\<forall>h \<in> set (headers t).
                includes' (toLowerCase h) (toLowerCase query) \<longrightarrow>
                  (\<exists>r \<in> set candidates.
                     fileId r = id' f \<and> content r = h \<and> relevanceScore r = Num (7 / 10)
                     \<and> matchType r = Text))
             \<and> (\<forall>row \<in> set (rows t). \<forall>cell \<in> set row.
                  includes' (toLowerCase cell) (toLowerCase query) \<longrightarrow>
                    (\<exists>r \<in> set candidates.
                       fileId r = id' f \<and> content r = cell \<and> relevanceScore r = Num (6 / 10)
                       \<and> matchType r = Text)))
          \<and> (\<forall>ks. keywords' (extractedContent f) = Some ks \<longrightarrow>
                (\<forall>k \<in> set ks.
                   includes' (toLowerCase k) (toLowerCase query) \<longrightarrow>
                     (\<exists>r \<in> set candidates.
                        fileId r = id' f \<and> content r = k \<and> relevanceScore r = Num (8 / 10)
                        \<and> matchType r = Text)))
          \<and> (\<forall>s t i. summary (extractedContent f) = Some s
                \<and> t \<in> set (preprocessQuery query)
                \<and> indexOf (toLowerCase s) (toLowerCase t) 0 = Some i \<longrightarrow>
                (\<exists>r \<in> set candidates.
                   fileId r = id' f \<and> content r = extractContext s i (length t)
                   \<and> matchType r = Text)))"
proof -
  obtain candidates where c: "collectResults regExp query files options = Some candidates"
    using collectResults_returns by blast
  have eq: "fileCandidates regExp query False False False =
          (\<lambda>file. appendAll [Some (tableMatcher query file), summaryMatcher regExp query file,
                             Some (keywordMatcher query file)])"
    by (intro ext ungated_candidates)
  from assms have all: "appendAll (map (fileCandidates regExp query False False False) files)
                     = Some candidates"
    using c by (simp add: collectResults_candidates optionOr_def)
  have per_file: "set (tableMatcher query f) \<subseteq> set candidates
        \<and> set (keywordMatcher query f) \<subseteq> set candidates
        \<and> (\<forall>rs. summaryMatcher regExp query f = Some rs \<longrightarrow> set rs \<subseteq> set candidates)"
    if f: "f \<in> set files" for f
  proof -
    obtain fc where fc: "fileCandidates regExp query False False False f = Some fc"
      using fileCandidates_returns by blast
    with f have "Some fc \<in> set (map (fileCandidates regExp query False False False) files)"
      by force
    from appendAll_member [OF all this] have sub: "set fc \<subseteq> set candidates" .
    obtain rs where rs: "summaryMatcher regExp query f = Some rs"
      using summaryMatcher_returns by blast
    with fc have "fc = tableMatcher query f @ rs @ keywordMatcher query f"
      by (simp add: ungated_candidates)
    with sub rs show ?thesis
      by auto
  qed
  have scans: "(\<forall>t \<in> set (tables (extractedContent f)).
             (\<forall>h \<in> set (headers t).
                includes' (toLowerCase h) (toLowerCase query) \<longrightarrow>
                  (\<exists>r \<in> set candidates.
                     fileId r = id' f \<and> content r = h \<and> relevanceScore r = Num (7 / 10)
                     \<and> matchType r = Text))
             \<and> (\<forall>row \<in> set (rows t). \<forall>cell \<in> set row.
                  includes' (toLowerCase cell) (toLowerCase query) \<longrightarrow>
                    (\<exists>r \<in> set candidates.
                       fileId r = id' f \<and> content r = cell \<and> relevanceScore r = Num (6 / 10)
                       \<and> matchType r = Text)))
          \<and> (\<forall>ks. keywords' (extractedContent f) = Some ks \<longrightarrow>
                (\<forall>k \<in> set ks.
                   includes' (toLowerCase k) (toLowerCase query) \<longrightarrow>
                     (\<exists>r \<in> set candidates.
                        fileId r = id' f \<and> content r = k \<and> relevanceScore r = Num (8 / 10)
                        \<and> matchType r = Text)))
          \<and> (\<forall>s t i. summary (extractedContent f) = Some s
                \<and> t \<in> set (preprocessQuery query)
                \<and> indexOf (toLowerCase s) (toLowerCase t) 0 = Some i \<longrightarrow>
                (\<exists>r \<in> set candidates.
                   fileId r = id' f \<and> content r = extractContext s i (length t)
                   \<and> matchType r = Text))"
    if f: "f \<in> set files" for f
  proof (intro conjI ballI allI impI)
    fix t h
    assume "t \<in> set (tables (extractedContent f))" "h \<in> set (headers t)"
      "includes' (toLowerCase h) (toLowerCase query)"
    then obtain r where "r \<in> set (tableMatcher query f)"
      "fileId r = id' f \<and> content r = h \<and> relevanceScore r = Num (7 / 10) \<and> matchType r = Text"
      using searchInTable_headers_finds [of h "headers t" "toLowerCase query" "id' f" "name f"]
        tableMatcher_member [of t f _ query]
      by blast
    with per_file [OF f] show "\<exists>r \<in> set candidates.
        fileId r = id' f \<and> content r = h \<and> relevanceScore r = Num (7 / 10) \<and> matchType r = Text"
      by blast
  next
    fix t row cell
    assume "t \<in> set (tables (extractedContent f))" "row \<in> set (rows t)" "cell \<in> set row"
      "includes' (toLowerCase cell) (toLowerCase query)"
    then obtain r where "r \<in> set (tableMatcher query f)"
      "fileId r = id' f \<and> content r = cell \<and> relevanceScore r = Num (6 / 10)
       \<and> matchType r = Text"
      using searchInTable_rows_finds [of row "rows t" cell "toLowerCase query" "id' f" "name f" 0]
        tableMatcher_member [of t f _ query]
      by blast
    with per_file [OF f] show "\<exists>r \<in> set candidates.
        fileId r = id' f \<and> content r = cell \<and> relevanceScore r = Num (6 / 10)
        \<and> matchType r = Text"
      by blast
  next
    fix ks k
    assume "keywords' (extractedContent f) = Some ks" "k \<in> set ks"
      "includes' (toLowerCase k) (toLowerCase query)"
    then obtain r where "r \<in> set (keywordMatcher query f)"
      "fileId r = id' f \<and> content r = k \<and> relevanceScore r = Num (8 / 10) \<and> matchType r = Text"
      using searchInKeywords_loop_finds [of k ks "toLowerCase query" "id' f" "name f"]
        keywordMatcher_member [of f ks _ query]
      by blast
    with per_file [OF f] show "\<exists>r \<in> set candidates.
        fileId r = id' f \<and> content r = k \<and> relevanceScore r = Num (8 / 10) \<and> matchType r = Text"
      by blast
  next
    fix s t i
    assume a: "summary (extractedContent f) = Some s
                \<and> t \<in> set (preprocessQuery query)
                \<and> indexOf (toLowerCase s) (toLowerCase t) 0 = Some i"
    then have t: "t \<in> set (preprocessQuery query)"
      and i: "indexOf (toLowerCase s) (toLowerCase t) 0 = Some i"
      by simp_all
    from indexOf_bounds(2) [OF i] preprocessQuery_length [OF t] have "s \<noteq> []"
      by auto
    with a have sm: "summaryMatcher regExp query f
                       = searchInText regExp query s (id' f) (name f) Text"
      by (simp add: summaryMatcher_def)
    from searchInText_finds [OF t i, of regExp "id' f" "name f" Text] obtain rs r where
      "searchInText regExp query s (id' f) (name f) Text = Some rs" "r \<in> set rs"
      "fileId r = id' f \<and> content r = extractContext s i (length t) \<and> matchType r = Text"
      by blast
    with sm per_file [OF f] show "\<exists>r \<in> set candidates.
        fileId r = id' f \<and> content r = extractContext s i (length t) \<and> matchType r = Text"
      by auto
  qed
  from all have all': "appendAll
         (map (\<lambda>file.
                 appendAll
                   [Some (tableMatcher query file), summaryMatcher regExp query file,
                    Some (keywordMatcher query file)])
            files) = Some candidates"
    by (simp only: eq)
  show ?thesis
    by (rule exI [of _ candidates])
       (intro conjI c all' search_candidates [OF c] ballI scans)
qed

theorem search_ungated_witness:
  "includeText noSwitches = Some False \<and> includeOCR noSwitches = Some False
   \<and> includeMetadata noSwitches = Some False
   \<and> search dotRegExp caseFoldingCompare ''budget'' [budgetFile] noSwitches =
       Some [\<lparr>fileId = ''f4'', fileName = ''plan.xlsx'', content = ''budget plan'',
               relevanceScore = Num (19 / 20), matchType = Text,
               context' = ''budget plan''\<rparr>,
             \<lparr>fileId = ''f4'', fileName = ''plan.xlsx'', content = ''budget'',
               relevanceScore = Num (8 / 10), matchType = Text,
               context' = ''Keyword: budget''\<rparr>,
             \<lparr>fileId = ''f4'', fileName = ''plan.xlsx'', content = ''Budget'',
               relevanceScore = Num (7 / 10), matchType = Text,
               context' = ''Table header: Budget''\<rparr>,
             \<lparr>fileId = ''f4'', fileName = ''plan.xlsx'', content = ''Marketing budget'',
               relevanceScore = Num (6 / 10), matchType = Text,
               context' = ''Table cell (Row 1, Col 1): Marketing budget''\<rparr>]"
proof -
  have sw: "includeText noSwitches = Some False" "includeOCR noSwitches = Some False"
    "includeMetadata noSwitches = Some False"
    by (simp_all add: noSwitches_def defaultOptions_def)
  have opts: "threshold noSwitches = None" "sortBy noSwitches = None"
    "maxResults noSwitches = None"
    by (simp_all add: noSwitches_def defaultOptions_def)
  have cands: "appendAll
         (map (\<lambda>file.
                 appendAll
                   [Some (tableMatcher ''budget'' file), summaryMatcher dotRegExp ''budget'' file,
                    Some (keywordMatcher ''budget'' file)])
            [budgetFile]) =
       Some [\<lparr>fileId = ''f4'', fileName = ''plan.xlsx'', content = ''Budget'',
               relevanceScore = Num (7 / 10), matchType = Text,
               context' = ''Table header: Budget''\<rparr>,
             \<lparr>fileId = ''f4'', fileName = ''plan.xlsx'', content = ''Marketing budget'',
               relevanceScore = Num (6 / 10), matchType = Text,
               context' = ''Table cell (Row 1, Col 1): Marketing budget''\<rparr>,
             \<lparr>fileId = ''f4'', fileName = ''plan.xlsx'', content = ''budget plan'',
               relevanceScore = Num (19 / 20), matchType = Text,
               context' = ''budget plan''\<rparr>,
             \<lparr>fileId = ''f4'', fileName = ''plan.xlsx'', content = ''budget'',
               relevanceScore = Num (8 / 10), matchType = Text,
               context' = ''Keyword: budget''\<rparr>]"
    by code_simp
  from search_ungated [OF sw, of dotRegExp "''budget''" "[budgetFile]" caseFoldingCompare]
  obtain candidates where
    1: "appendAll
         (map (\<lambda>file.
                 appendAll
                   [Some (tableMatcher ''budget'' file), summaryMatcher dotRegExp ''budget'' file,
                    Some (keywordMatcher ''budget'' file)])
            [budgetFile]) = Some candidates"
    and 2: "search dotRegExp caseFoldingCompare ''budget'' [budgetFile] noSwitches =
         Some (slice
                 (sortResults caseFoldingCompare
                    (filter (\<lambda>result. num_ge (relevanceScore result)
                                         (optionOr (threshold noSwitches) (1 / 10)))
                       candidates)
                    (optionOr (sortBy noSwitches) Relevance))
                 (optionOr (maxResults noSwitches) 50))"
    by blast
  from 1 cands have candidates: "candidates =
      [\<lparr>fileId = ''f4'', fileName = ''plan.xlsx'', content = ''Budget'',
         relevanceScore = Num (7 / 10), matchType = Text,
         context' = ''Table header: Budget''\<rparr>,
       \<lparr>fileId = ''f4'', fileName = ''plan.xlsx'', content = ''Marketing budget'',
         relevanceScore = Num (6 / 10), matchType = Text,
         context' = ''Table cell (Row 1, Col 1): Marketing budget''\<rparr>,
       \<lparr>fileId = ''f4'', fileName = ''plan.xlsx'', content = ''budget plan'',
         relevanceScore = Num (19 / 20), matchType = Text,
         context' = ''budget plan''\<rparr>,
       \<lparr>fileId = ''f4'', fileName = ''plan.xlsx'', content = ''budget'',
         relevanceScore = Num (8 / 10), matchType = Text,
         context' = ''Keyword: budget''\<rparr>]"
    by simp
  have "search dotRegExp caseFoldingCompare ''budget'' [budgetFile] noSwitches =
       Some [\<lparr>fileId = ''f4'', fileName = ''plan.xlsx'', content = ''budget plan'',
               relevanceScore = Num (19 / 20), matchType = Text,
               context' = ''budget plan''\<rparr>,
             \<lparr>fileId = ''f4'', fileName = ''plan.xlsx'', content = ''budget'',
               relevanceScore = Num (8 / 10), matchType = Text,
               context' = ''Keyword: budget''\<rparr>,
             \<lparr>fileId = ''f4'', fileName = ''plan.xlsx'', content = ''Budget'',
               relevanceScore = Num (7 / 10), matchType = Text,
               context' = ''Table header: Budget''\<rparr>,
             \<lparr>fileId = ''f4'', fileName = ''plan.xlsx'', content = ''Marketing budget'',
               relevanceScore = Num (6 / 10), matchType = Text,
               context' = ''Table cell (Row 1, Col 1): Marketing budget''\<rparr>]"
    unfolding 2 candidates opts
    by (simp add: sortResults_def arraySort_def slice_def optionOr_def)
  with sw show ?thesis
    by (intro conjI)
qed

end
